theory Spec2Isabelle
  imports Main "HOL-Library.AList" "HOL-Library.Multiset" "HOL-Library.Extended_Nat"
begin

section \<open>Shared JavaScript notions\<close>

text \<open>
  The console is TypeScript running on a JavaScript engine.  Reading a property of
  \<^verbatim>\<open>undefined\<close> raises a \<^verbatim>\<open>TypeError\<close>; every place of the modelled code
  that can do so returns \<open>Inl TypeError\<close>.  A string is truthy when it is not empty.
\<close>

datatype js_error = TypeError

definition truthy :: "string \<Rightarrow> bool" where
  "truthy s \<longleftrightarrow> s \<noteq> []"

text \<open>An optional string property (\<^verbatim>\<open>undefined\<close> or a string) used as a condition.\<close>

definition truthy_opt :: "string option \<Rightarrow> bool" where
  "truthy_opt v \<longleftrightarrow> (case v of None \<Rightarrow> False | Some s \<Rightarrow> truthy s)"

section \<open>The access-configuration component: data\<close>

text \<open>
  Modelled from the spec: the string enum \<^verbatim>\<open>SupportedAuthProtocolTypes\<close> is declared in
  \<^verbatim>\<open>../../models\<close>, outside the files verified here.  The spec's data model names its
  tags (OIDC, SAML, WS-Trust, WS-Federation, custom).  The strings behind the tags and the
  declaration order are left open: the record holds one string per tag, and
  \<open>enum_values\<close> stands for \<^verbatim>\<open>Object.values(SupportedAuthProtocolTypes)\<close>.
\<close>

record SupportedAuthProtocolTypes =
  SAML :: string
  OIDC :: string
  WS_FEDERATION :: string
  WS_TRUST :: string
  CUSTOM :: string
  enum_values :: "string list"

text \<open>
  What the component reads from its imports and from the store:
  \<^verbatim>\<open>CustomApplicationTemplate.id\<close> (a JSON file),
  \<^verbatim>\<open>applicationConfig.customApplication.allowedProtocolTypes\<close> (an extension point, possibly
  undefined) and \<^verbatim>\<open>state.config.deployment.allowMultipleAppProtocols\<close>.
\<close>

record environment =
  protocolTypes :: SupportedAuthProtocolTypes
  CustomApplicationTemplate_id :: string
  allowedProtocolTypes :: "string list option"
  allowMultipleProtocol :: bool

text \<open>\<^verbatim>\<open>ApplicationTemplateListItemInterface\<close>, as far as the component reads it.\<close>

record ApplicationTemplate =
  template_id :: string
  authenticationProtocol :: "string option"

text \<open>
  \<^verbatim>\<open>AccessConfigurationPropsInterface\<close>.  The optional callbacks are flags: the component
  calls them without a guard, so an absent callback is a \<^verbatim>\<open>TypeError\<close> at the call.
\<close>

record props =
  appId :: string
  extendedAccessConfig :: bool
  inboundProtocols :: "string list"
  isLoading :: bool
  isInboundProtocolConfigRequestLoading :: bool
  template :: "ApplicationTemplate option"
  has_onAllowedOriginsUpdate :: bool
  has_onApplicationSecretRegenerate :: bool

section \<open>Backend calls and notifications\<close>

text \<open>
  The translation function \<^verbatim>\<open>t\<close> of \<^verbatim>\<open>react-i18next\<close> is kept symbolic: a translated
  text is its key with its options, a text taken from a response is verbatim.
\<close>

datatype i18n_text =
    Translated string "(string \<times> string option) list"
  | Verbatim string

definition t :: "string \<Rightarrow> i18n_text" where
  "t k = Translated k []"

datatype AlertLevels = SUCCESS | ERROR

record alert =
  description :: i18n_text
  level :: AlertLevels
  message :: i18n_text

text \<open>
  The value a rejected promise carries, as far as the handlers read it:
  \<^verbatim>\<open>error.response.data.description\<close>, each step possibly undefined.  A \<^verbatim>\<open>TypeError\<close>
  thrown inside a \<^verbatim>\<open>then\<close> callback reaches \<^verbatim>\<open>catch\<close> as an error without response.
\<close>

record error_data =
  err_description :: "string option"

record error_response =
  err_data :: "error_data option"

record api_error =
  err_response :: "error_response option"

definition thrown_TypeError :: api_error where
  "thrown_TypeError = \<lparr> err_response = None \<rparr>"

datatype 'a outcome = Resolved 'a | Rejected api_error

type_synonym payload = "(string \<times> string) list"

text \<open>The form values \<^verbatim>\<open>handleSubmit\<close> receives: \<^verbatim>\<open>values.general\<close> and \<^verbatim>\<open>values.inbound\<close>.\<close>

record submit_values =
  values_general :: payload
  values_inbound :: payload

text \<open>
  What a handler does, in order: backend calls, dispatches to the store, callbacks of the
  parent, and state setters.
\<close>

datatype action =
    Call_deleteProtocol string "string option"
  | Call_updateAuthProtocolConfig string payload "string option"
  | Call_updateApplicationDetails string payload
  | Call_regenerateClientSecret string
  | Call_revokeClientSecret string
  | Call_getAuthProtocolMetadata string
  | Dispatch_addAlert alert
  | Dispatch_setAuthProtocolMeta string payload
  | OnUpdate string
  | OnProtocolUpdate
  | OnAllowedOriginsUpdate
  | OnApplicationSecretRegenerate payload
  | SetRequestLoading bool
  | SetSelectedProtocol "string option"
  | SetShowDeleteConfirmationModal bool
  | SetShowProtocolSwitchModal bool
  | SetShowWizard bool
  | SetInboundProtocolList "string list"
  | SetSupportedProtocolList "string list"
  | PushInboundProtocolList string

section \<open>getSupportedProtocols\<close>

text \<open>
  The candidate list: \<^verbatim>\<open>template?.authenticationProtocol ? [ template.authenticationProtocol ]
  : Object.values(SupportedAuthProtocolTypes)\<close>.
\<close>

definition candidateProtocols :: "environment \<Rightarrow> props \<Rightarrow> string list" where
  "candidateProtocols cfg p =
     (case template p of
        None \<Rightarrow> enum_values (protocolTypes cfg)
      | Some tpl \<Rightarrow>
          (case authenticationProtocol tpl of
             None \<Rightarrow> enum_values (protocolTypes cfg)
           | Some a \<Rightarrow> if truthy a then [a] else enum_values (protocolTypes cfg)))"

text \<open>
  The first test of the filter callback: the template is the custom-application template and
  the extension configures a non-empty \<^verbatim>\<open>allowedProtocolTypes\<close>.
\<close>

definition usesAllowedProtocolTypes :: "environment \<Rightarrow> ApplicationTemplate \<Rightarrow> bool" where
  "usesAllowedProtocolTypes cfg tpl \<longleftrightarrow>
     template_id tpl = CustomApplicationTemplate_id cfg
     \<and> (case allowedProtocolTypes cfg of None \<Rightarrow> False | Some allowed \<Rightarrow> 0 < length allowed)"

text \<open>
  The filter callback, for a defined template.  It returns \<^verbatim>\<open>protocol\<close> (kept when the
  string is truthy) or \<^verbatim>\<open>false\<close>.
\<close>

definition keepProtocol ::
  "environment \<Rightarrow> props \<Rightarrow> ApplicationTemplate \<Rightarrow> string option \<Rightarrow> string \<Rightarrow> bool" where
  "keepProtocol cfg p tpl filterProtocol protocol =
     (if usesAllowedProtocolTypes cfg tpl then
        (if protocol \<in> set (case allowedProtocolTypes cfg of None \<Rightarrow> [] | Some allowed \<Rightarrow> allowed)
         then truthy protocol else False)
      else if protocol = WS_TRUST (protocolTypes cfg)
           \<or> protocol = CUSTOM (protocolTypes cfg)
           \<or> (extendedAccessConfig p \<and> protocol = WS_FEDERATION (protocolTypes cfg))
           \<or> (truthy_opt filterProtocol \<and> Some protocol = filterProtocol)
      then False
      else truthy protocol)"

text \<open>
  \<^verbatim>\<open>getSupportedProtocols\<close>.  The callback reads \<^verbatim>\<open>template.id\<close> without the optional
  chaining used one statement earlier, so with an undefined template the first element of a
  non-empty candidate list raises.
\<close>

definition getSupportedProtocols ::
  "environment \<Rightarrow> props \<Rightarrow> string option \<Rightarrow> js_error + string list" where
  "getSupportedProtocols cfg p filterProtocol =
     (case template p of
        None \<Rightarrow> if candidateProtocols cfg p = [] then Inr [] else Inl TypeError
      | Some tpl \<Rightarrow> Inr (filter (keepProtocol cfg p tpl filterProtocol) (candidateProtocols cfg p)))"

section \<open>loadSupportedProtocols\<close>

text \<open>
  The component's \<^verbatim>\<open>useState\<close> hooks, with their initial values.
\<close>

record ui_state =
  selectedProtocol :: "string option"
  inboundProtocolList :: "string list"
  supportedProtocolList :: "string list option"
  showWizard :: bool
  showDeleteConfirmationModal :: bool
  showProtocolSwitchModal :: bool
  protocolToDelete :: "string option"
  showLandingPage :: bool
  requestLoading :: bool

definition initial_state :: ui_state where
  "initial_state =
     \<lparr> selectedProtocol = None, inboundProtocolList = [], supportedProtocolList = None,
       showWizard = False, showDeleteConfirmationModal = False,
       showProtocolSwitchModal = False, protocolToDelete = None, showLandingPage = True,
       requestLoading = False \<rparr>"

text \<open>
  The \<^verbatim>\<open>forEach\<close> over \<^verbatim>\<open>inboundProtocols\<close> inside the sort iteratee: a configured
  protocol that is an enum value gets its index as order, replacing an earlier entry.
\<close>

fun forEachCustomOrder ::
  "string list \<Rightarrow> nat \<Rightarrow> string list \<Rightarrow> (string \<rightharpoonup> nat) \<Rightarrow> (string \<rightharpoonup> nat)" where
  "forEachCustomOrder vals index [] order = order"
| "forEachCustomOrder vals index (protocol # rest) order =
     forEachCustomOrder vals (Suc index) rest
       (if protocol \<in> set vals then order(protocol \<mapsto> index) else order)"

text \<open>
  The object \<^verbatim>\<open>customOrder\<close> the iteratee builds for every element, read as a map from
  protocol to order.  It starts as \<^verbatim>\<open>{ [OIDC]: 0, [SAML]: 1 }\<close>.  The protocol names
  are taken not to be names of properties every JavaScript object inherits.
\<close>

definition customOrder :: "SupportedAuthProtocolTypes \<Rightarrow> string list \<Rightarrow> (string \<rightharpoonup> nat)" where
  "customOrder T inbound =
     (let base = [OIDC T \<mapsto> 0, SAML T \<mapsto> 1]
      in if 0 < length inbound then forEachCustomOrder (enum_values T) 0 inbound base else base)"

text \<open>
  \<^verbatim>\<open>sortBy\<close> of lodash, a library outside the repository, by its documented contract: a
  stable sort in ascending order of the iteratee's results, where \<^verbatim>\<open>undefined\<close> comes
  after every number.
\<close>

definition sortKey :: "nat option \<Rightarrow> enat" where
  "sortKey k = (case k of None \<Rightarrow> \<infinity> | Some n \<Rightarrow> enat n)"

definition sortBy :: "'a list \<Rightarrow> ('a \<Rightarrow> nat option) \<Rightarrow> 'a list" where
  "sortBy xs iteratee = sort_key (\<lambda>x. sortKey (iteratee x)) xs"

text \<open>The local \<^verbatim>\<open>supportedProtocols\<close> of \<^verbatim>\<open>loadSupportedProtocols\<close> after the sort.\<close>

definition sortedSupportedProtocols :: "environment \<Rightarrow> props \<Rightarrow> js_error + string list" where
  "sortedSupportedProtocols cfg p =
     (case getSupportedProtocols cfg p None of
        Inl e \<Rightarrow> Inl e
      | Inr supportedProtocols \<Rightarrow>
          Inr (sortBy supportedProtocols (customOrder (protocolTypes cfg) (inboundProtocols p))))"

text \<open>
  \<^verbatim>\<open>loadSupportedProtocols\<close>: both setters are guarded by the state of the current render;
  \<^verbatim>\<open>supportedProtocols[0]\<close> of an empty list is \<^verbatim>\<open>undefined\<close>.
\<close>

definition loadSupportedProtocols :: "environment \<Rightarrow> props \<Rightarrow> ui_state \<Rightarrow> js_error + action list" where
  "loadSupportedProtocols cfg p s =
     (case sortedSupportedProtocols cfg p of
        Inl e \<Rightarrow> Inl e
      | Inr supportedProtocols \<Rightarrow>
          Inr ((if \<not> truthy_opt (selectedProtocol s)
                then [SetSelectedProtocol (case supportedProtocols of [] \<Rightarrow> None | x # _ \<Rightarrow> Some x)]
                else [])
               @ (case supportedProtocolList s of
                    None \<Rightarrow> [SetSupportedProtocolList supportedProtocols]
                  | Some _ \<Rightarrow> [])))"

section \<open>The handlers of the backend calls\<close>

definition notifications :: string where
  "notifications = ''console:develop.features.applications.notifications''"

text \<open>\<^verbatim>\<open>error?.response?.data?.description\<close>.\<close>

definition errorDescription :: "api_error \<Rightarrow> string option" where
  "errorDescription error =
     (case err_response error of
        None \<Rightarrow> None
      | Some r \<Rightarrow> (case err_data r of None \<Rightarrow> None | Some d \<Rightarrow> err_description d))"

text \<open>
  The body every \<^verbatim>\<open>catch\<close> callback of the component repeats, with the three texts of the
  call site: when the description is truthy, an alert with that description and the
  operation's error message; otherwise the alert built from the other two texts.
\<close>

definition catchAlert :: "api_error \<Rightarrow> i18n_text \<Rightarrow> i18n_text \<Rightarrow> i18n_text \<Rightarrow> alert" where
  "catchAlert error errorMessage fallbackDescription fallbackMessage =
     (case errorDescription error of
        None \<Rightarrow> \<lparr> description = fallbackDescription, level = ERROR, message = fallbackMessage \<rparr>
      | Some d \<Rightarrow>
          if truthy d
          then \<lparr> description = Verbatim d, level = ERROR, message = errorMessage \<rparr>
          else \<lparr> description = fallbackDescription, level = ERROR, message = fallbackMessage \<rparr>)"

text \<open>
  Each handler is given the outcome of its backend call and returns what it does: the
  synchronous part up to the call, then the callbacks (\<^verbatim>\<open>then\<close>, \<^verbatim>\<open>catch\<close>,
  \<^verbatim>\<open>finally\<close>) that run when the call settles.
\<close>

definition handleInboundConfigDelete_settled ::
  "props \<Rightarrow> string option \<Rightarrow> unit outcome \<Rightarrow> action list" where
  "handleInboundConfigDelete_settled p protocol result =
     (case result of
        Resolved _ \<Rightarrow>
          [Dispatch_addAlert
             \<lparr> description = Translated (notifications @ ''.deleteProtocolConfig'' @ ''.success.description'')
                               [(''protocol'', protocol)],
               level = SUCCESS,
               message = t (notifications @ ''.deleteProtocolConfig'' @ ''.success.message'') \<rparr>,
           OnUpdate (appId p)]
      | Rejected error \<Rightarrow>
          [Dispatch_addAlert
             (catchAlert error
                (t (notifications @ ''.deleteProtocolConfig.error'' @ ''.message''))
                (t (notifications @ ''.deleteProtocolConfig'' @ ''.genericError.description''))
                (t (notifications @ ''.deleteProtocolConfig'' @ ''.genericError.message'')))])"

definition handleInboundConfigDelete ::
  "props \<Rightarrow> string option \<Rightarrow> unit outcome \<Rightarrow> action list" where
  "handleInboundConfigDelete p protocol result =
     Call_deleteProtocol (appId p) protocol # handleInboundConfigDelete_settled p protocol result"

definition handleInboundConfigSwitch_settled ::
  "props \<Rightarrow> unit outcome \<Rightarrow> action list" where
  "handleInboundConfigSwitch_settled p result =
     (case result of
        Resolved _ \<Rightarrow> [OnUpdate (appId p)]
      | Rejected error \<Rightarrow>
          [Dispatch_addAlert
             (catchAlert error
                (t (notifications @ ''.deleteProtocolConfig.error'' @ ''.message''))
                (t (notifications @ ''.deleteProtocolConfig'' @ ''.genericError.description''))
                (t (notifications @ ''.deleteProtocolConfig'' @ ''.genericError.message'')))])
     @ [SetRequestLoading False, SetSelectedProtocol None]"

definition handleInboundConfigSwitch ::
  "props \<Rightarrow> string option \<Rightarrow> unit outcome \<Rightarrow> action list" where
  "handleInboundConfigSwitch p protocol result =
     [SetRequestLoading True, Call_deleteProtocol (appId p) protocol]
     @ handleInboundConfigSwitch_settled p result"

text \<open>
  In \<^verbatim>\<open>handleInboundConfigFormSubmit\<close> the \<^verbatim>\<open>then\<close> callback calls the optional
  \<^verbatim>\<open>onAllowedOriginsUpdate\<close> unguarded; when it is absent the call throws, and the
  \<^verbatim>\<open>catch\<close> callback that follows reports it.
\<close>

definition handleInboundConfigFormSubmit_settled ::
  "props \<Rightarrow> unit outcome \<Rightarrow> action list" where
  "handleInboundConfigFormSubmit_settled p result =
     (case result of
        Resolved _ \<Rightarrow>
          Dispatch_addAlert
            \<lparr> description = t (notifications @ ''.updateInboundProtocolConfig'' @ ''.success.description''),
              level = SUCCESS,
              message = t (notifications @ ''.updateInboundProtocolConfig'' @ ''.success.message'') \<rparr>
          # (if has_onAllowedOriginsUpdate p then [OnAllowedOriginsUpdate]
             else [Dispatch_addAlert
                     (catchAlert thrown_TypeError
                        (t (notifications @ ''.updateInboundProtocolConfig'' @ ''.error.message''))
                        (t (notifications @ ''.updateInboundProtocolConfig'' @ ''.genericError.description''))
                        (t (notifications @ ''.updateInboundProtocolConfig'' @ ''.genericError.message'')))])
      | Rejected error \<Rightarrow>
          [Dispatch_addAlert
             (catchAlert error
                (t (notifications @ ''.updateInboundProtocolConfig'' @ ''.error.message''))
                (t (notifications @ ''.updateInboundProtocolConfig'' @ ''.genericError.description''))
                (t (notifications @ ''.updateInboundProtocolConfig'' @ ''.genericError.message'')))])
     @ [OnUpdate (appId p), OnProtocolUpdate]"

definition handleInboundConfigFormSubmit ::
  "props \<Rightarrow> payload \<Rightarrow> string option \<Rightarrow> unit outcome \<Rightarrow> action list" where
  "handleInboundConfigFormSubmit p values protocol result =
     Call_updateAuthProtocolConfig (appId p) values protocol
     # handleInboundConfigFormSubmit_settled p result"

text \<open>
  \<^verbatim>\<open>handleSubmit\<close>.  Its \<^verbatim>\<open>then\<close> callback issues the protocol update with the
  \<^verbatim>\<open>selectedProtocol\<close> of the render the handler belongs to; the callbacks of that inner
  call run when its request settles, after the outer \<^verbatim>\<open>finally\<close>.
\<close>

definition handleSubmit_settled ::
  "props \<Rightarrow> string option \<Rightarrow> submit_values \<Rightarrow> unit outcome \<Rightarrow> action list" where
  "handleSubmit_settled p selected values detailsResult =
     (case detailsResult of
        Resolved _ \<Rightarrow> [Call_updateAuthProtocolConfig (appId p) (values_inbound values) selected]
      | Rejected error \<Rightarrow>
          [Dispatch_addAlert
             (catchAlert error
                (t (notifications @ ''.updateApplication.error'' @ ''.message''))
                (t (notifications @ ''.updateApplication'' @ ''.genericError.description''))
                (t (notifications @ ''.updateApplication.genericError'' @ ''.message'')))])
     @ [SetRequestLoading False]"

text \<open>
  The whole run of \<^verbatim>\<open>handleSubmit\<close>, given the outcome of the details update and the
  outcome the protocol update has if it is issued.
\<close>

definition handleSubmit ::
  "props \<Rightarrow> ui_state \<Rightarrow> submit_values \<Rightarrow> unit outcome \<Rightarrow> unit outcome \<Rightarrow> action list" where
  "handleSubmit p s values detailsResult inboundResult =
     [SetRequestLoading True, Call_updateApplicationDetails (appId p) (values_general values)]
     @ handleSubmit_settled p (selectedProtocol s) values detailsResult
     @ (case detailsResult of
          Resolved _ \<Rightarrow> handleInboundConfigFormSubmit_settled p inboundResult
        | Rejected _ \<Rightarrow> [])"

definition handleApplicationRegenerate_settled :: "props \<Rightarrow> payload outcome \<Rightarrow> action list" where
  "handleApplicationRegenerate_settled p result =
     (case result of
        Resolved response_data \<Rightarrow>
          Dispatch_addAlert
            \<lparr> description = t (notifications @ ''.regenerateSecret.success'' @ ''.description''),
              level = SUCCESS,
              message = t (notifications @ ''.regenerateSecret.success.message'') \<rparr>
          # (if has_onApplicationSecretRegenerate p
             then [OnApplicationSecretRegenerate response_data, OnUpdate (appId p)]
             else [Dispatch_addAlert
                     (catchAlert thrown_TypeError
                        (t (notifications @ ''.regenerateSecret.error.message''))
                        (t (notifications @ ''.regenerateSecret'' @ ''.genericError.description''))
                        (t (notifications @ ''.regenerateSecret'' @ ''.genericError.message'')))])
      | Rejected error \<Rightarrow>
          [Dispatch_addAlert
             (catchAlert error
                (t (notifications @ ''.regenerateSecret.error.message''))
                (t (notifications @ ''.regenerateSecret'' @ ''.genericError.description''))
                (t (notifications @ ''.regenerateSecret'' @ ''.genericError.message'')))])"

definition handleApplicationRegenerate :: "props \<Rightarrow> payload outcome \<Rightarrow> action list" where
  "handleApplicationRegenerate p result =
     Call_regenerateClientSecret (appId p) # handleApplicationRegenerate_settled p result"

text \<open>
  \<^verbatim>\<open>handleApplicationRevoke\<close>: the last alert of its \<^verbatim>\<open>catch\<close> callback is built from the
  keys \<^verbatim>\<open>revokeApplication.success.description\<close> and \<^verbatim>\<open>revokeApplication.success.message\<close>.
\<close>

definition handleApplicationRevoke_settled :: "props \<Rightarrow> unit outcome \<Rightarrow> action list" where
  "handleApplicationRevoke_settled p result =
     (case result of
        Resolved _ \<Rightarrow>
          [Dispatch_addAlert
             \<lparr> description = t (notifications @ ''.revokeApplication.success'' @ ''.description''),
               level = SUCCESS,
               message = t (notifications @ ''.revokeApplication.success.message'') \<rparr>,
           OnUpdate (appId p)]
      | Rejected error \<Rightarrow>
          [Dispatch_addAlert
             (catchAlert error
                (t (notifications @ ''.revokeApplication.error'' @ ''.message''))
                (t (notifications @ ''.revokeApplication.success'' @ ''.description''))
                (t (notifications @ ''.revokeApplication.success.message'')))])"

definition handleApplicationRevoke :: "props \<Rightarrow> unit outcome \<Rightarrow> action list" where
  "handleApplicationRevoke p result =
     Call_revokeClientSecret (appId p) # handleApplicationRevoke_settled p result"

text \<open>
  The body of the effect that fetches protocol metadata, for one member \<^verbatim>\<open>selected\<close> of
  \<^verbatim>\<open>Object.values(SupportedAuthProtocolMetaTypes)\<close>; \<open>authProtocolMeta\<close> lists the own
  keys of the store's \<^verbatim>\<open>protocolMeta\<close>.
\<close>

definition fetchProtocolMeta_settled :: "string \<Rightarrow> payload outcome \<Rightarrow> action list" where
  "fetchProtocolMeta_settled selected result =
     (case result of
        Resolved response \<Rightarrow> [Dispatch_setAuthProtocolMeta selected response]
      | Rejected error \<Rightarrow>
          [Dispatch_addAlert
             (catchAlert error
                (t (notifications @ ''.fetchProtocolMeta'' @ ''.error.message''))
                (t (notifications @ ''.fetchProtocolMeta'' @ ''.genericError.description''))
                (t (notifications @ ''.fetchProtocolMeta'' @ ''.genericError.message'')))])"

definition fetchProtocolMeta ::
  "environment \<Rightarrow> string list \<Rightarrow> string \<Rightarrow> payload outcome \<Rightarrow> action list" where
  "fetchProtocolMeta cfg authProtocolMeta selected result =
     (if selected = WS_FEDERATION (protocolTypes cfg) \<or> selected = WS_TRUST (protocolTypes cfg)
      then []
      else if selected \<in> set authProtocolMeta then []
      else Call_getAuthProtocolMetadata selected # fetchProtocolMeta_settled selected result)"

text \<open>The alerts a trace dispatches, in order.\<close>

fun alerts :: "action list \<Rightarrow> alert list" where
  "alerts [] = []"
| "alerts (Dispatch_addAlert a # rest) = a # alerts rest"
| "alerts (_ # rest) = alerts rest"

section \<open>What is rendered, and the events of the component\<close>

text \<open>
  The element the component returns.  The grid calls \<^verbatim>\<open>loadSupportedProtocols\<close> while it
  renders; a \<^verbatim>\<open>TypeError\<close> during rendering leaves nothing on the screen.
\<close>

datatype view = ContentLoader | ProtocolLanding | Grid | RenderError

definition renderGrid :: "environment \<Rightarrow> props \<Rightarrow> ui_state \<Rightarrow> view" where
  "renderGrid cfg p s =
     (case loadSupportedProtocols cfg p s of Inl _ \<Rightarrow> RenderError | Inr _ \<Rightarrow> Grid)"

definition render :: "environment \<Rightarrow> props \<Rightarrow> ui_state \<Rightarrow> view" where
  "render cfg p s =
     (if \<not> isLoading p \<and> \<not> requestLoading s \<and> \<not> isInboundProtocolConfigRequestLoading p then
        (if \<not> truthy_opt (selectedProtocol s) \<and> length (inboundProtocols p) = 0
            \<and> \<not> allowMultipleProtocol cfg
         then (case getSupportedProtocols cfg p None of
                 Inl _ \<Rightarrow> RenderError
               | Inr supported \<Rightarrow>
                   if length supported \<noteq> 1 then ProtocolLanding else renderGrid cfg p s)
         else renderGrid cfg p s)
      else ContentLoader)"

text \<open>
  The state setters among the actions, applied to the state of the hooks.
  \<^verbatim>\<open>selectInitialProtocol\<close> pushes onto the array held in \<^verbatim>\<open>inboundProtocolList\<close>.
\<close>

fun apply_action :: "ui_state \<Rightarrow> action \<Rightarrow> ui_state" where
  "apply_action s (SetRequestLoading b) = s \<lparr> requestLoading := b \<rparr>"
| "apply_action s (SetSelectedProtocol v) = s \<lparr> selectedProtocol := v \<rparr>"
| "apply_action s (SetShowDeleteConfirmationModal b) = s \<lparr> showDeleteConfirmationModal := b \<rparr>"
| "apply_action s (SetShowProtocolSwitchModal b) = s \<lparr> showProtocolSwitchModal := b \<rparr>"
| "apply_action s (SetShowWizard b) = s \<lparr> showWizard := b \<rparr>"
| "apply_action s (SetInboundProtocolList l) = s \<lparr> inboundProtocolList := l \<rparr>"
| "apply_action s (SetSupportedProtocolList l) = s \<lparr> supportedProtocolList := Some l \<rparr>"
| "apply_action s (PushInboundProtocolList x) =
     s \<lparr> inboundProtocolList := inboundProtocolList s @ [x] \<rparr>"
| "apply_action s _ = s"

definition apply_actions :: "ui_state \<Rightarrow> action list \<Rightarrow> ui_state" where
  "apply_actions s as = foldl apply_action s as"

text \<open>
  Everything that makes the component act: the handlers its elements carry, the call of
  \<^verbatim>\<open>loadSupportedProtocols\<close> by the grid, its two effects, and the settling of a backend
  call, which runs the callbacks registered for it.
\<close>

datatype ui_event =
    DeleteModal_onClose
  | DeleteModal_onSecondaryActionClick
  | DeleteModal_onPrimaryActionClick
  | SwitchModal_onClose
  | SwitchModal_onSecondaryActionClick
  | SwitchModal_onPrimaryActionClick
  | Wizard_closeWizard
  | ProtocolButton_onClick string
  | ProtocolLanding_setProtocol string
  | Form_onSubmit submit_values
  | Form_onApplicationRegenerate
  | Form_onApplicationRevoke
  | Grid_loadSupportedProtocols
  | Effect_inboundProtocols
  | Effect_fetchProtocolMeta "string list" string
  | Settled_deleteProtocol "string option" "unit outcome"
  | Settled_switchProtocol "unit outcome"
  | Settled_updateApplicationDetails "string option" submit_values "unit outcome"
  | Settled_updateAuthProtocolConfig "unit outcome"
  | Settled_regenerateClientSecret "payload outcome"
  | Settled_revokeClientSecret "unit outcome"
  | Settled_getAuthProtocolMetadata string "payload outcome"

text \<open>
  Whether the settings form is on the screen (\<^verbatim>\<open>resolveInboundProtocolSettingsForm\<close>
  returns null without a selected protocol), and whether it is the form of an enum value,
  the only one that is given the regenerate and revoke handlers.
\<close>

definition formShown :: "environment \<Rightarrow> props \<Rightarrow> ui_state \<Rightarrow> bool" where
  "formShown cfg p s \<longleftrightarrow> render cfg p s = Grid \<and> truthy_opt (selectedProtocol s)"

definition knownProtocolFormShown :: "environment \<Rightarrow> props \<Rightarrow> ui_state \<Rightarrow> bool" where
  "knownProtocolFormShown cfg p s \<longleftrightarrow>
     formShown cfg p s
     \<and> (case selectedProtocol s of
          None \<Rightarrow> False
        | Some sel \<Rightarrow> sel \<in> set (enum_values (protocolTypes cfg)))"

text \<open>
  The actions of an event, \<open>None\<close> when the element that carries the handler is not on
  the screen.  A handler runs up to its backend call; the callbacks belong to the settling
  event.
\<close>

fun event_actions :: "environment \<Rightarrow> props \<Rightarrow> ui_state \<Rightarrow> ui_event \<Rightarrow> action list option" where
  "event_actions cfg p s DeleteModal_onClose =
     (if render cfg p s = Grid \<and> showDeleteConfirmationModal s
      then Some [SetShowDeleteConfirmationModal False] else None)"
| "event_actions cfg p s DeleteModal_onSecondaryActionClick =
     (if render cfg p s = Grid \<and> showDeleteConfirmationModal s
      then Some [SetShowDeleteConfirmationModal False] else None)"
| "event_actions cfg p s DeleteModal_onPrimaryActionClick =
     (if render cfg p s = Grid \<and> showDeleteConfirmationModal s
      then Some [Call_deleteProtocol (appId p) (protocolToDelete s),
                 SetShowDeleteConfirmationModal False]
      else None)"
| "event_actions cfg p s SwitchModal_onClose =
     (if render cfg p s = Grid \<and> showProtocolSwitchModal s
      then Some [SetShowDeleteConfirmationModal False] else None)"
| "event_actions cfg p s SwitchModal_onSecondaryActionClick =
     (if render cfg p s = Grid \<and> showProtocolSwitchModal s
      then Some [SetShowProtocolSwitchModal False] else None)"
| "event_actions cfg p s SwitchModal_onPrimaryActionClick =
     (if render cfg p s = Grid \<and> showProtocolSwitchModal s
      then Some [SetRequestLoading True, Call_deleteProtocol (appId p) (selectedProtocol s),
                 SetShowProtocolSwitchModal False]
      else None)"
| "event_actions cfg p s Wizard_closeWizard =
     (if render cfg p s = Grid \<and> showWizard s then Some [SetShowWizard False] else None)"
| "event_actions cfg p s (ProtocolButton_onClick protocol) =
     (if formShown cfg p s \<and> allowMultipleProtocol cfg
         \<and> (case supportedProtocolList s of None \<Rightarrow> False | Some l \<Rightarrow> protocol \<in> set l)
      then Some [SetSelectedProtocol (Some protocol)] else None)"
| "event_actions cfg p s (ProtocolLanding_setProtocol protocol) =
     (if render cfg p s = ProtocolLanding
      then Some [SetSelectedProtocol (Some protocol), PushInboundProtocolList protocol]
      else None)"
| "event_actions cfg p s (Form_onSubmit values) =
     (if formShown cfg p s
      then Some [SetRequestLoading True,
                 Call_updateApplicationDetails (appId p) (values_general values)]
      else None)"
| "event_actions cfg p s Form_onApplicationRegenerate =
     (if knownProtocolFormShown cfg p s then Some [Call_regenerateClientSecret (appId p)]
      else None)"
| "event_actions cfg p s Form_onApplicationRevoke =
     (if knownProtocolFormShown cfg p s then Some [Call_revokeClientSecret (appId p)]
      else None)"
| "event_actions cfg p s Grid_loadSupportedProtocols =
     (if render cfg p s = Grid
      then (case loadSupportedProtocols cfg p s of Inl _ \<Rightarrow> None | Inr as \<Rightarrow> Some as)
      else None)"
| "event_actions cfg p s Effect_inboundProtocols =
     Some (if 0 < length (inboundProtocols p)
           then [SetInboundProtocolList (inboundProtocols p)] else [])"
| "event_actions cfg p s (Effect_fetchProtocolMeta authProtocolMeta selected) =
     Some (if selected = WS_FEDERATION (protocolTypes cfg)
              \<or> selected = WS_TRUST (protocolTypes cfg)
           then []
           else if selected \<in> set authProtocolMeta then []
           else [Call_getAuthProtocolMetadata selected])"
| "event_actions cfg p s (Settled_deleteProtocol protocol result) =
     Some (handleInboundConfigDelete_settled p protocol result)"
| "event_actions cfg p s (Settled_switchProtocol result) =
     Some (handleInboundConfigSwitch_settled p result)"
| "event_actions cfg p s (Settled_updateApplicationDetails selected values result) =
     Some (handleSubmit_settled p selected values result)"
| "event_actions cfg p s (Settled_updateAuthProtocolConfig result) =
     Some (handleInboundConfigFormSubmit_settled p result)"
| "event_actions cfg p s (Settled_regenerateClientSecret result) =
     Some (handleApplicationRegenerate_settled p result)"
| "event_actions cfg p s (Settled_revokeClientSecret result) =
     Some (handleApplicationRevoke_settled p result)"
| "event_actions cfg p s (Settled_getAuthProtocolMetadata selected result) =
     Some (fetchProtocolMeta_settled selected result)"

definition step :: "environment \<Rightarrow> props \<Rightarrow> ui_state \<Rightarrow> ui_event \<Rightarrow> (ui_state \<times> action list) option" where
  "step cfg p s ev =
     (case event_actions cfg p s ev of
        None \<Rightarrow> None
      | Some as \<Rightarrow> Some (apply_actions s as, as))"

text \<open>The states the component can be in, from its initial state.\<close>

inductive reachable :: "environment \<Rightarrow> props \<Rightarrow> ui_state \<Rightarrow> bool" for cfg p where
  reachable_initial: "reachable cfg p initial_state"
| reachable_step: "reachable cfg p s \<Longrightarrow> step cfg p s ev = Some (s', as) \<Longrightarrow> reachable cfg p s'"



section \<open>Field adapters\<close>






















section \<open>The Facebook authenticator form\<close>

text \<open>
  \<^verbatim>\<open>CommonAuthenticatorFormPropertyInterface\<close>: one entry of the flat property list.
\<close>

record property =
  prop_key :: string
  prop_value :: string

text \<open>
  The initial values are a JavaScript object: its own properties in order, each with a
  value.  Of the values only the kinds the form meets are kept apart; the property list
  lives under the key \<^verbatim>\<open>properties\<close>.
\<close>

datatype js_value = Str string | Bool bool | Properties "property list" | Undefined

type_synonym js_object = "(string \<times> js_value) list"

text \<open>\<^verbatim>\<open>CommonAuthenticatorFormFieldMetaInterface\<close>, as far as the form reads it.\<close>

record field_meta =
  meta_key :: string
  isMandatory :: bool
  readOnly :: bool
  maxLength :: nat

record authenticator_meta =
  meta_properties :: "field_meta list option"

record form_field =
  field_meta :: "field_meta option"
  field_value :: string

text \<open>The two \<^verbatim>\<open>useState\<close> hooks of the form, both \<^verbatim>\<open>undefined\<close> at first.\<close>

record form_state =
  formFields :: "(string \<times> form_field) list option"
  initialValues :: "(string \<times> string) list option"

definition initial_form_state :: form_state where
  "initial_form_state = \<lparr> formFields = None, initialValues = None \<rparr>"

text \<open>\<^verbatim>\<open>originalInitialValues?.properties\<close>.\<close>

definition originalProperties :: "js_object option \<Rightarrow> js_value" where
  "originalProperties originalInitialValues =
     (case originalInitialValues of
        None \<Rightarrow> Undefined
      | Some obj \<Rightarrow> (case map_of obj ''properties'' of None \<Rightarrow> Undefined | Some v \<Rightarrow> v))"

text \<open>
  \<^verbatim>\<open>isEmpty\<close> of lodash, a library outside the repository, by its documented contract:
  arrays and strings are empty when their length is 0, \<^verbatim>\<open>undefined\<close> and booleans are
  empty.
\<close>

fun isEmpty :: "js_value \<Rightarrow> bool" where
  "isEmpty (Properties l) = (length l = 0)"
| "isEmpty (Str s) = (length s = 0)"
| "isEmpty (Bool _) = True"
| "isEmpty Undefined = True"

text \<open>
  \<^verbatim>\<open>metadata?.properties.find((meta) => meta.key === value.key)\<close>: the optional chaining
  covers \<^verbatim>\<open>metadata\<close> only, so metadata without \<^verbatim>\<open>properties\<close> raises.
\<close>

definition findMeta :: "authenticator_meta option \<Rightarrow> string \<Rightarrow> js_error + field_meta option" where
  "findMeta metadata k =
     (case metadata of
        None \<Rightarrow> Inr None
      | Some m \<Rightarrow>
          (case meta_properties m of
             None \<Rightarrow> Inl TypeError
           | Some ps \<Rightarrow> Inr (find (\<lambda>meta. meta_key meta = k) ps)))"

text \<open>
  The callback of \<^verbatim>\<open>originalInitialValues.properties.map\<close>, run over the list: each
  property sets its key in both resolved objects, by spreading the object and naming the
  key again.
\<close>

fun resolveProperties ::
  "authenticator_meta option \<Rightarrow> property list \<Rightarrow> (string \<times> form_field) list \<Rightarrow>
   (string \<times> string) list \<Rightarrow> js_error + ((string \<times> form_field) list \<times> (string \<times> string) list)" where
  "resolveProperties metadata [] resolvedFormFields resolvedInitialValues =
     Inr (resolvedFormFields, resolvedInitialValues)"
| "resolveProperties metadata (v # rest) resolvedFormFields resolvedInitialValues =
     (case findMeta metadata (prop_key v) of
        Inl e \<Rightarrow> Inl e
      | Inr meta \<Rightarrow>
          resolveProperties metadata rest
            (AList.update (prop_key v) \<lparr> field_meta = meta, field_value = prop_value v \<rparr>
               resolvedFormFields)
            (AList.update (prop_key v) (prop_value v) resolvedInitialValues))"

text \<open>
  The initialisation effect of \<^verbatim>\<open>FacebookAuthenticatorForm\<close>.  It returns early on an
  empty property list; a non-empty value that is no list has no \<^verbatim>\<open>map\<close>.
\<close>

definition initialiseEffect ::
  "authenticator_meta option \<Rightarrow> js_object option \<Rightarrow> form_state \<Rightarrow> js_error + form_state" where
  "initialiseEffect metadata originalInitialValues st =
     (if isEmpty (originalProperties originalInitialValues) then Inr st
      else (case originalProperties originalInitialValues of
              Properties l \<Rightarrow>
                (case resolveProperties metadata l [] [] of
                   Inl e \<Rightarrow> Inl e
                 | Inr (resolvedFormFields, resolvedInitialValues) \<Rightarrow>
                     Inr \<lparr> formFields = Some resolvedFormFields,
                           initialValues = Some resolvedInitialValues \<rparr>)
            | _ \<Rightarrow> Inl TypeError))"

text \<open>The effect runs again whenever \<^verbatim>\<open>originalInitialValues\<close> changes: a sequence of runs.\<close>

fun initialiseRuns ::
  "(authenticator_meta option \<times> js_object option) list \<Rightarrow> form_state \<Rightarrow> js_error + form_state" where
  "initialiseRuns [] st = Inr st"
| "initialiseRuns ((metadata, originalInitialValues) # rest) st =
     (case initialiseEffect metadata originalInitialValues st of
        Inl e \<Rightarrow> Inl e
      | Inr st' \<Rightarrow> initialiseRuns rest st')"

text \<open>
  What the inputs are given for a field named \<open>k\<close>:
  \<^verbatim>\<open>formFields?.k?.meta?.isMandatory\<close>, \<^verbatim>\<open>formFields?.k?.meta?.readOnly\<close>,
  \<^verbatim>\<open>formFields?.k?.value\<close> and \<^verbatim>\<open>formFields?.k?.meta?.maxLength\<close>.
\<close>

definition fieldOf :: "form_state \<Rightarrow> string \<Rightarrow> form_field option" where
  "fieldOf st k = (case formFields st of None \<Rightarrow> None | Some fs \<Rightarrow> map_of fs k)"

definition fieldMetaOf :: "form_state \<Rightarrow> string \<Rightarrow> field_meta option" where
  "fieldMetaOf st k = (case fieldOf st k of None \<Rightarrow> None | Some f \<Rightarrow> field_meta f)"

definition fieldRequired :: "form_state \<Rightarrow> string \<Rightarrow> bool option" where
  "fieldRequired st k = map_option isMandatory (fieldMetaOf st k)"

definition fieldReadOnly :: "form_state \<Rightarrow> string \<Rightarrow> bool option" where
  "fieldReadOnly st k = map_option readOnly (fieldMetaOf st k)"

definition fieldValue :: "form_state \<Rightarrow> string \<Rightarrow> string option" where
  "fieldValue st k = map_option field_value (fieldOf st k)"

definition fieldMaxLength :: "form_state \<Rightarrow> string \<Rightarrow> nat option" where
  "fieldMaxLength st k = map_option maxLength (fieldMetaOf st k)"

text \<open>
  \<^verbatim>\<open>getUpdatedConfigurations\<close>.  The loop over \<^verbatim>\<open>Object.entries(values)\<close> pushes one
  property per entry; its test \<^verbatim>\<open>key !== undefined\<close> holds for every entry, the keys being
  strings.  The result spreads the original object (nothing, when it is undefined) and sets
  \<^verbatim>\<open>properties\<close>.
\<close>

fun pushEntries :: "(string \<times> string) list \<Rightarrow> property list \<Rightarrow> property list" where
  "pushEntries [] properties = properties"
| "pushEntries ((k, v) # rest) properties =
     pushEntries rest (properties @ [\<lparr> prop_key = k, prop_value = v \<rparr>])"

definition getUpdatedConfigurations :: "js_object option \<Rightarrow> (string \<times> string) list \<Rightarrow> js_object" where
  "getUpdatedConfigurations originalInitialValues values =
     AList.update ''properties'' (Properties (pushEntries values []))
       (case originalInitialValues of None \<Rightarrow> [] | Some obj \<Rightarrow> obj)"

text \<open>
  The first declaration of a key in the metadata, and the key-value pairs of a property
  list with the last property first: what a lookup of a key finds after the loop.
\<close>

definition declaredMeta :: "authenticator_meta option \<Rightarrow> string \<Rightarrow> field_meta option" where
  "declaredMeta metadata k =
     (case metadata of
        None \<Rightarrow> None
      | Some m \<Rightarrow>
          (case meta_properties m of
             None \<Rightarrow> None
           | Some ps \<Rightarrow> find (\<lambda>meta. meta_key meta = k) ps))"

definition suppliedValue :: "property list \<Rightarrow> string \<Rightarrow> string option" where
  "suppliedValue l k = map_of (rev (map (\<lambda>v. (prop_key v, prop_value v)) l)) k"

text \<open>Concrete inputs for the closed theorems below.\<close>

definition example_types :: SupportedAuthProtocolTypes where
  "example_types =
     \<lparr> SAML = ''saml'', OIDC = ''oidc'', WS_FEDERATION = ''passive-sts'',
       WS_TRUST = ''ws-trust'', CUSTOM = ''custom'',
       enum_values = [''saml'', ''oidc'', ''passive-sts'', ''ws-trust'', ''custom''] \<rparr>"

definition example_env :: environment where
  "example_env =
     \<lparr> protocolTypes = example_types, CustomApplicationTemplate_id = ''custom-application'',
       allowedProtocolTypes = None, allowMultipleProtocol = False \<rparr>"

definition example_props :: props where
  "example_props =
     \<lparr> appId = ''app-1'', extendedAccessConfig = True, inboundProtocols = [],
       isLoading = False, isInboundProtocolConfigRequestLoading = False,
       template = Some \<lparr> template_id = ''single-page-application'', authenticationProtocol = None \<rparr>,
       has_onAllowedOriginsUpdate = True, has_onApplicationSecretRegenerate = True \<rparr>"

definition custom_template_props :: props where
  "custom_template_props =
     example_props \<lparr> template :=
       Some \<lparr> template_id = ''custom-application'', authenticationProtocol = None \<rparr> \<rparr>"

definition oidc_first_env :: environment where
  "oidc_first_env =
     example_env \<lparr> protocolTypes := example_types
       \<lparr> enum_values := [''oidc'', ''saml'', ''passive-sts'', ''ws-trust'', ''custom''] \<rparr> \<rparr>"

definition configured_props :: props where
  "configured_props = example_props \<lparr> inboundProtocols := [''saml'', ''oidc''] \<rparr>"

definition example_values :: submit_values where
  "example_values =
     \<lparr> values_general = [(''name'', ''My App'')],
       values_inbound = [(''grantTypes'', ''authorization_code'')] \<rparr>"

definition network_error :: api_error where
  "network_error = \<lparr> err_response = None \<rparr>"

definition described_error :: api_error where
  "described_error =
     \<lparr> err_response = Some \<lparr> err_data = Some \<lparr> err_description = Some ''Not allowed.'' \<rparr> \<rparr> \<rparr>"

definition oidc_selected_state :: ui_state where
  "oidc_selected_state =
     initial_state \<lparr> selectedProtocol := Some ''oidc'', inboundProtocolList := [''oidc''] \<rparr>"


definition delete_modal_state :: ui_state where
  "delete_modal_state =
     initial_state \<lparr> selectedProtocol := Some ''oidc'', showDeleteConfirmationModal := True,
       protocolToDelete := Some ''saml'' \<rparr>"




definition facebook_metadata :: "authenticator_meta option" where
  "facebook_metadata =
     Some \<lparr> meta_properties = Some
       [\<lparr> meta_key = ''ClientId'', isMandatory = True, readOnly = False, maxLength = 100 \<rparr>,
        \<lparr> meta_key = ''ClientSecret'', isMandatory = True, readOnly = False, maxLength = 100 \<rparr>] \<rparr>"

definition facebook_initial_values :: "js_object option" where
  "facebook_initial_values =
     Some [(''authenticatorId'', Str ''RmFjZWJvb2s''), (''isEnabled'', Bool True),
           (''properties'', Properties [\<lparr> prop_key = ''ClientId'', prop_value = ''abc'' \<rparr>])]"

definition facebook_without_properties :: "js_object option" where
  "facebook_without_properties =
     Some [(''authenticatorId'', Str ''RmFjZWJvb2s''), (''properties'', Properties [])]"

section \<open>Theorems: getSupportedProtocols\<close>

lemma keepProtocol_plain:
  assumes "\<not> usesAllowedProtocolTypes cfg tpl" and "keepProtocol cfg p tpl f protocol"
  shows "protocol \<noteq> WS_TRUST (protocolTypes cfg)"
    and "protocol \<noteq> CUSTOM (protocolTypes cfg)"
    and "extendedAccessConfig p \<Longrightarrow> protocol \<noteq> WS_FEDERATION (protocolTypes cfg)"
  using assms by (auto simp: keepProtocol_def split: if_splits)

lemma keepProtocol_allowed:
  assumes "usesAllowedProtocolTypes cfg tpl" and "keepProtocol cfg p tpl f protocol"
  shows "\<exists>allowed. allowedProtocolTypes cfg = Some allowed \<and> protocol \<in> set allowed"
  using assms
  by (auto simp: keepProtocol_def usesAllowedProtocolTypes_def split: if_splits option.splits)

text \<open>
  Without a template the callback cannot read \<^verbatim>\<open>template.id\<close>: the call raises as soon
  as there is a protocol to filter.
\<close>

lemma getSupportedProtocols_without_template:
  "template p = None \<Longrightarrow> enum_values (protocolTypes cfg) \<noteq> [] \<Longrightarrow>
   getSupportedProtocols cfg p f = Inl TypeError"
  by (simp add: getSupportedProtocols_def candidateProtocols_def)

text \<open>
  C1, as the code has it.  With a template, the call returns a list.  Unless the template is
  the custom-application template and a non-empty \<^verbatim>\<open>allowedProtocolTypes\<close> is configured, the
  list holds neither WS-Trust nor custom, and no WS-Federation when
  \<^verbatim>\<open>extendedAccessConfig\<close> is set; this covers templates with their own
  \<^verbatim>\<open>authenticationProtocol\<close>.  In the excepted case the list holds only members of
  \<^verbatim>\<open>allowedProtocolTypes\<close>, whatever they are.
\<close>

theorem getSupportedProtocols_excludes:
  assumes "template p = Some tpl"
  shows "\<exists>ps. getSupportedProtocols cfg p f = Inr ps
           \<and> (\<not> usesAllowedProtocolTypes cfg tpl \<longrightarrow>
                WS_TRUST (protocolTypes cfg) \<notin> set ps
                \<and> CUSTOM (protocolTypes cfg) \<notin> set ps
                \<and> (extendedAccessConfig p \<longrightarrow> WS_FEDERATION (protocolTypes cfg) \<notin> set ps))
           \<and> (usesAllowedProtocolTypes cfg tpl \<longrightarrow>
                (\<exists>allowed. allowedProtocolTypes cfg = Some allowed \<and> set ps \<subseteq> set allowed))"
proof -
  let ?ps = "filter (keepProtocol cfg p tpl f) (candidateProtocols cfg p)"
  have r: "getSupportedProtocols cfg p f = Inr ?ps"
    using assms by (simp add: getSupportedProtocols_def)
  have plain: "WS_TRUST (protocolTypes cfg) \<notin> set ?ps \<and> CUSTOM (protocolTypes cfg) \<notin> set ?ps
      \<and> (extendedAccessConfig p \<longrightarrow> WS_FEDERATION (protocolTypes cfg) \<notin> set ?ps)"
    if "\<not> usesAllowedProtocolTypes cfg tpl"
    using that by (auto simp: keepProtocol_def)
  have allowed: "\<exists>allowed. allowedProtocolTypes cfg = Some allowed \<and> set ?ps \<subseteq> set allowed"
    if u: "usesAllowedProtocolTypes cfg tpl"
  proof -
    from u obtain allowed where a: "allowedProtocolTypes cfg = Some allowed"
      by (auto simp: usesAllowedProtocolTypes_def split: option.splits)
    have "set ?ps \<subseteq> set allowed"
      using keepProtocol_allowed [OF u] a by auto
    with a show ?thesis by blast
  qed
  from r plain allowed show ?thesis by blast
qed

theorem getSupportedProtocols_excludes_witness:
  "getSupportedProtocols example_env example_props None = Inr [''saml'', ''oidc'']
   \<and> getSupportedProtocols (example_env \<lparr> allowedProtocolTypes := Some [''oidc''] \<rparr>)
       custom_template_props None = Inr [''oidc'']"
proof -
  have t1: "template example_props
      = Some \<lparr> template_id = ''single-page-application'', authenticationProtocol = None \<rparr>"
    by (simp add: example_props_def)
  have t2: "template custom_template_props
      = Some \<lparr> template_id = ''custom-application'', authenticationProtocol = None \<rparr>"
    by (simp add: custom_template_props_def example_props_def)
  note a = getSupportedProtocols_excludes [OF t1, of example_env None]
  note b = getSupportedProtocols_excludes
    [OF t2, of "example_env \<lparr> allowedProtocolTypes := Some [''oidc''] \<rparr>" None]
  have e1: "getSupportedProtocols example_env example_props None = Inr [''saml'', ''oidc'']"
    by (simp add: getSupportedProtocols_def candidateProtocols_def keepProtocol_def
        usesAllowedProtocolTypes_def example_env_def example_props_def example_types_def
        truthy_def truthy_opt_def)
  have e2: "getSupportedProtocols (example_env \<lparr> allowedProtocolTypes := Some [''oidc''] \<rparr>)
       custom_template_props None = Inr [''oidc'']"
    by (simp add: getSupportedProtocols_def candidateProtocols_def keepProtocol_def
        usesAllowedProtocolTypes_def example_env_def example_props_def example_types_def
        custom_template_props_def truthy_def truthy_opt_def)
  from a b e1 e2 show ?thesis by simp
qed

text \<open>
  C1 as stated fails: for the custom-application template with
  \<^verbatim>\<open>allowedProtocolTypes = [ "ws-trust", "custom" ]\<close> the list is exactly these two.
\<close>

theorem getSupportedProtocols_counterexample:
  "getSupportedProtocols (example_env \<lparr> allowedProtocolTypes := Some [''ws-trust'', ''custom''] \<rparr>)
     custom_template_props None = Inr [''ws-trust'', ''custom'']
   \<and> WS_TRUST (protocolTypes example_env) = ''ws-trust''
   \<and> CUSTOM (protocolTypes example_env) = ''custom''"
  by (simp add: getSupportedProtocols_def candidateProtocols_def keepProtocol_def
      usesAllowedProtocolTypes_def example_env_def example_props_def example_types_def
      custom_template_props_def truthy_def truthy_opt_def)

section \<open>Theorems: loadSupportedProtocols\<close>

lemma forEachCustomOrder_other:
  "e \<notin> set ps \<or> e \<notin> set vals \<Longrightarrow> forEachCustomOrder vals i ps m e = m e"
  by (induction ps arbitrary: i m) auto

lemma forEachCustomOrder_last:
  "e \<in> set ps \<Longrightarrow> e \<in> set vals \<Longrightarrow>
   \<exists>k. forEachCustomOrder vals i ps m e = Some (i + k) \<and> k < length ps \<and> ps ! k = e
       \<and> (\<forall>j. k < j \<and> j < length ps \<longrightarrow> ps ! j \<noteq> e)"
proof (induction ps arbitrary: i m)
  case Nil
  then show ?case by simp
next
  case (Cons a ps)
  let ?m = "if a \<in> set vals then m(a \<mapsto> i) else m"
  show ?case
  proof (cases "e \<in> set ps")
    case True
    from Cons.IH [OF True Cons.prems(2), of "Suc i" ?m]
    obtain k where k: "forEachCustomOrder vals (Suc i) ps ?m e = Some (Suc i + k)"
      "k < length ps" "ps ! k = e" "\<forall>j. k < j \<and> j < length ps \<longrightarrow> ps ! j \<noteq> e"
      by blast
    have "\<forall>j. Suc k < j \<and> j < length (a # ps) \<longrightarrow> (a # ps) ! j \<noteq> e"
      using k(4) by (auto simp: nth_Cons split: nat.splits)
    with k show ?thesis
      by (intro exI [of _ "Suc k"]) simp
  next
    case False
    with Cons.prems have ae: "a = e" by simp
    have "forEachCustomOrder vals (Suc i) ps (m(e \<mapsto> i)) e = Some i"
      using False by (simp add: forEachCustomOrder_other)
    moreover have "\<forall>j. 0 < j \<and> j < length (a # ps) \<longrightarrow> (a # ps) ! j \<noteq> e"
      using False by (auto simp: nth_Cons split: nat.splits)
    ultimately show ?thesis
      using ae Cons.prems(2) by (intro exI [of _ 0]) simp
  qed
qed

lemma customOrder_unconfigured:
  "e \<notin> set inbound \<or> e \<notin> set (enum_values T) \<Longrightarrow>
   customOrder T inbound e = (if e = SAML T then Some 1 else if e = OIDC T then Some 0 else None)"
  by (auto simp: customOrder_def Let_def forEachCustomOrder_other)

lemma customOrder_configured:
  "e \<in> set inbound \<Longrightarrow> e \<in> set (enum_values T) \<Longrightarrow>
   \<exists>k. customOrder T inbound e = Some k \<and> k < length inbound \<and> inbound ! k = e
       \<and> (\<forall>j. k < j \<and> j < length inbound \<longrightarrow> inbound ! j \<noteq> e)"
  using forEachCustomOrder_last [of e inbound "enum_values T" 0 "[OIDC T \<mapsto> 0, SAML T \<mapsto> 1]"]
  by (cases inbound) (auto simp: customOrder_def Let_def)

lemma sortBy_sorted: "sorted (map (\<lambda>x. sortKey (f x)) (sortBy xs f))"
  by (simp add: sortBy_def)

lemma sortBy_mset: "mset (sortBy xs f) = mset xs"
  by (simp add: sortBy_def)

lemma sortBy_stable: "filter (\<lambda>y. f y = k) (sortBy xs f) = filter (\<lambda>y. f y = k) xs"
proof -
  let ?g = "\<lambda>x. sortKey (f x)"
  have "filter (\<lambda>y. f y = k) (sort_key ?g xs)
      = filter (\<lambda>y. f y = k) (filter (\<lambda>y. ?g y = sortKey k) (sort_key ?g xs))"
    by (auto intro: filter_cong)
  also have "\<dots> = filter (\<lambda>y. f y = k) (filter (\<lambda>y. ?g y = sortKey k) xs)"
    by (simp only: sort_key_stable)
  also have "\<dots> = filter (\<lambda>y. f y = k) xs"
    by (auto intro: filter_cong)
  finally show ?thesis by (simp add: sortBy_def)
qed

lemma sortBy_before:
  assumes "sortKey (f a) < sortKey (f b)"
    and "i < length (sortBy xs f)" "j < length (sortBy xs f)"
    and "sortBy xs f ! i = a" "sortBy xs f ! j = b"
  shows "i < j"
proof (rule ccontr)
  assume "\<not> i < j"
  then have "j \<le> i" by simp
  with sortBy_sorted [of f xs] assms(2)
  have "map (\<lambda>x. sortKey (f x)) (sortBy xs f) ! j \<le> map (\<lambda>x. sortKey (f x)) (sortBy xs f) ! i"
    by (simp add: sorted_iff_nth_mono)
  with assms show False by simp
qed

lemma insort_key_skip:
  "\<forall>y\<in>set ys. f y < f x \<Longrightarrow> insort_key f x (ys @ zs) = ys @ insort_key f x zs"
  by (induction ys) auto

lemma sortBy_three:
  assumes "\<And>x. x \<in> set xs \<Longrightarrow> f x = Some 0 \<or> f x = Some 1 \<or> f x = None"
  shows "sortBy xs f = filter (\<lambda>x. f x = Some 0) xs @ filter (\<lambda>x. f x = Some 1) xs
           @ filter (\<lambda>x. f x = None) xs"
  using assms
proof (induction xs)
  case Nil
  then show ?case by (simp add: sortBy_def)
next
  case (Cons a xs)
  let ?g = "\<lambda>x. sortKey (f x)"
  let ?A = "filter (\<lambda>x. f x = Some 0) xs"
  let ?B = "filter (\<lambda>x. f x = Some 1) xs"
  let ?C = "filter (\<lambda>x. f x = None) xs"
  have ih: "sortBy xs f = ?A @ ?B @ ?C"
    using Cons by simp
  have step: "sortBy (a # xs) f = insort_key ?g a (?A @ ?B @ ?C)"
    using ih by (simp add: sortBy_def)
  from Cons.prems [of a] consider "f a = Some 0" | "f a = Some 1" | "f a = None"
    by auto
  then show ?case
  proof cases
    case 1
    have "insort_key ?g a (?A @ ?B @ ?C) = a # ?A @ ?B @ ?C"
      by (rule insort_is_Cons) (auto simp: 1 sortKey_def zero_enat_def [symmetric])
    with step 1 show ?thesis by simp
  next
    case 2
    have "insort_key ?g a (?A @ ?B @ ?C) = ?A @ insort_key ?g a (?B @ ?C)"
      by (rule insort_key_skip) (auto simp: 2 sortKey_def)
    also have "insort_key ?g a (?B @ ?C) = a # ?B @ ?C"
      by (rule insort_is_Cons) (auto simp: 2 sortKey_def)
    finally show ?thesis using step 2 by simp
  next
    case 3
    have "insort_key ?g a ((?A @ ?B) @ ?C) = (?A @ ?B) @ insort_key ?g a ?C"
      by (rule insort_key_skip) (auto simp: 3 sortKey_def)
    also have "insort_key ?g a ?C = a # ?C"
      by (rule insort_is_Cons) (auto simp: 3 sortKey_def)
    finally show ?thesis using step 3 by simp
  qed
qed

lemma sortBy_nothing_configured:
  assumes "OIDC T \<noteq> SAML T"
  shows "sortBy sp (customOrder T []) =
           filter (\<lambda>x. x = OIDC T) sp @ filter (\<lambda>x. x = SAML T) sp
           @ filter (\<lambda>x. x \<noteq> OIDC T \<and> x \<noteq> SAML T) sp"
proof -
  have k: "customOrder T [] x = (if x = SAML T then Some 1 else if x = OIDC T then Some 0 else None)"
    for x by (rule customOrder_unconfigured) simp
  have "sortBy sp (customOrder T []) =
      filter (\<lambda>x. customOrder T [] x = Some 0) sp @ filter (\<lambda>x. customOrder T [] x = Some 1) sp
      @ filter (\<lambda>x. customOrder T [] x = None) sp"
    by (rule sortBy_three) (simp add: k)
  moreover have "filter (\<lambda>x. customOrder T [] x = Some 0) sp = filter (\<lambda>x. x = OIDC T) sp"
    using assms by (intro filter_cong) (auto simp: k)
  moreover have "filter (\<lambda>x. customOrder T [] x = Some 1) sp = filter (\<lambda>x. x = SAML T) sp"
    using assms by (intro filter_cong) (auto simp: k)
  moreover have "filter (\<lambda>x. customOrder T [] x = None) sp
      = filter (\<lambda>x. x \<noteq> OIDC T \<and> x \<noteq> SAML T) sp"
    using assms by (intro filter_cong) (auto simp: k)
  ultimately show ?thesis by simp
qed

text \<open>
  C5, as the code has it.  The sorted list is a stable ascending sort of the supported
  protocols by the order \<^verbatim>\<open>customOrder\<close> gives them, a protocol without order last.  When
  neither OIDC nor SAML is configured, every OIDC entry comes before every SAML entry; when
  nothing is configured the list is OIDC, then SAML, then the others as they were.  The order
  of a configured enum value is its last index in \<^verbatim>\<open>inboundProtocols\<close>, also for OIDC and
  SAML, whose orders 0 and 1 only apply while they are not configured.
\<close>

theorem loadSupportedProtocols_order:
  assumes "getSupportedProtocols cfg p None = Inr sp"
    and "OIDC (protocolTypes cfg) \<noteq> SAML (protocolTypes cfg)"
  shows "\<exists>sorted_list.
      sortedSupportedProtocols cfg p = Inr sorted_list
      \<and> loadSupportedProtocols cfg p initial_state
          = Inr [SetSelectedProtocol (case sorted_list of [] \<Rightarrow> None | x # _ \<Rightarrow> Some x),
                 SetSupportedProtocolList sorted_list]
      \<and> mset sorted_list = mset sp
      \<and> sorted (map (\<lambda>x. sortKey (customOrder (protocolTypes cfg) (inboundProtocols p) x))
            sorted_list)
      \<and> (\<forall>k. filter (\<lambda>x. customOrder (protocolTypes cfg) (inboundProtocols p) x = k) sorted_list
             = filter (\<lambda>x. customOrder (protocolTypes cfg) (inboundProtocols p) x = k) sp)
      \<and> (OIDC (protocolTypes cfg) \<notin> set (inboundProtocols p)
           \<and> SAML (protocolTypes cfg) \<notin> set (inboundProtocols p) \<longrightarrow>
         (\<forall>i j. i < length sorted_list \<and> j < length sorted_list
            \<and> sorted_list ! i = OIDC (protocolTypes cfg)
            \<and> sorted_list ! j = SAML (protocolTypes cfg) \<longrightarrow> i < j))
      \<and> (inboundProtocols p = [] \<longrightarrow>
           sorted_list = filter (\<lambda>x. x = OIDC (protocolTypes cfg)) sp
             @ filter (\<lambda>x. x = SAML (protocolTypes cfg)) sp
             @ filter (\<lambda>x. x \<noteq> OIDC (protocolTypes cfg) \<and> x \<noteq> SAML (protocolTypes cfg)) sp)
      \<and> (\<forall>e. e \<in> set (inboundProtocols p) \<and> e \<in> set (enum_values (protocolTypes cfg)) \<longrightarrow>
           (\<exists>k. customOrder (protocolTypes cfg) (inboundProtocols p) e = Some k
              \<and> k < length (inboundProtocols p) \<and> inboundProtocols p ! k = e
              \<and> (\<forall>j. k < j \<and> j < length (inboundProtocols p) \<longrightarrow> inboundProtocols p ! j \<noteq> e)))"
proof -
  let ?T = "protocolTypes cfg"
  let ?f = "customOrder ?T (inboundProtocols p)"
  let ?l = "sortBy sp ?f"
  have a: "sortedSupportedProtocols cfg p = Inr ?l"
    using assms(1) by (simp add: sortedSupportedProtocols_def)
  have b: "loadSupportedProtocols cfg p initial_state
      = Inr [SetSelectedProtocol (case ?l of [] \<Rightarrow> None | x # _ \<Rightarrow> Some x),
             SetSupportedProtocolList ?l]"
    by (simp add: loadSupportedProtocols_def a initial_state_def truthy_opt_def)
  have c: "i < j"
    if "OIDC ?T \<notin> set (inboundProtocols p)" "SAML ?T \<notin> set (inboundProtocols p)"
      "i < length ?l" "j < length ?l" "?l ! i = OIDC ?T" "?l ! j = SAML ?T" for i j
  proof (rule sortBy_before [OF _ that(3,4,5,6)])
    have "?f (OIDC ?T) = Some 0" "?f (SAML ?T) = Some 1"
      using that(1,2) assms(2) by (simp_all add: customOrder_unconfigured)
    then show "sortKey (?f (OIDC ?T)) < sortKey (?f (SAML ?T))"
      by (simp add: sortKey_def)
  qed
  have d: "inboundProtocols p = [] \<longrightarrow>
      ?l = filter (\<lambda>x. x = OIDC ?T) sp @ filter (\<lambda>x. x = SAML ?T) sp
           @ filter (\<lambda>x. x \<noteq> OIDC ?T \<and> x \<noteq> SAML ?T) sp"
    using sortBy_nothing_configured [OF assms(2), of sp] by auto
  have e: "\<forall>e. e \<in> set (inboundProtocols p) \<and> e \<in> set (enum_values ?T) \<longrightarrow>
      (\<exists>k. ?f e = Some k \<and> k < length (inboundProtocols p) \<and> inboundProtocols p ! k = e
         \<and> (\<forall>j. k < j \<and> j < length (inboundProtocols p) \<longrightarrow> inboundProtocols p ! j \<noteq> e))"
    using customOrder_configured by blast
  show ?thesis
    apply (rule exI [of _ ?l])
    apply (intro conjI)
           apply (rule a)
          apply (rule b)
         apply (rule sortBy_mset)
        apply (rule sortBy_sorted)
       apply (simp add: sortBy_stable)
      using c apply blast
     apply (rule d)
    apply (rule e)
    done
qed

theorem loadSupportedProtocols_order_witness:
  "getSupportedProtocols example_env example_props None = Inr [''saml'', ''oidc'']
   \<and> OIDC (protocolTypes example_env) \<noteq> SAML (protocolTypes example_env)
   \<and> inboundProtocols example_props = []
   \<and> sortedSupportedProtocols example_env example_props = Inr [''oidc'', ''saml'']"
proof -
  have g: "getSupportedProtocols example_env example_props None = Inr [''saml'', ''oidc'']"
    by (simp add: getSupportedProtocols_def candidateProtocols_def keepProtocol_def
        usesAllowedProtocolTypes_def example_env_def example_props_def example_types_def
        truthy_def truthy_opt_def)
  have n: "OIDC (protocolTypes example_env) \<noteq> SAML (protocolTypes example_env)"
    by (simp add: example_env_def example_types_def)
  have i: "inboundProtocols example_props = []"
    by (simp add: example_props_def)
  have o: "OIDC (protocolTypes example_env) = ''oidc''" "SAML (protocolTypes example_env) = ''saml''"
    by (simp_all add: example_env_def example_types_def)
  from loadSupportedProtocols_order [OF g n] i o
  have "sortedSupportedProtocols example_env example_props = Inr [''oidc'', ''saml'']"
    by auto
  with g n i show ?thesis by simp
qed

text \<open>
  C5 as stated fails in its general part: with SAML and OIDC configured in this order, SAML
  is sorted before OIDC, although the supported list had OIDC first.
\<close>

theorem loadSupportedProtocols_counterexample:
  "getSupportedProtocols oidc_first_env configured_props None = Inr [''oidc'', ''saml'']
   \<and> inboundProtocols configured_props = [''saml'', ''oidc'']
   \<and> OIDC (protocolTypes oidc_first_env) = ''oidc''
   \<and> SAML (protocolTypes oidc_first_env) = ''saml''
   \<and> sortedSupportedProtocols oidc_first_env configured_props = Inr [''saml'', ''oidc'']"
  by (simp add: sortedSupportedProtocols_def sortBy_def customOrder_def sortKey_def
      getSupportedProtocols_def candidateProtocols_def keepProtocol_def
      usesAllowedProtocolTypes_def example_env_def example_props_def example_types_def
      oidc_first_env_def configured_props_def truthy_def truthy_opt_def)

section \<open>Theorems: notifications of failed calls\<close>

lemma catchAlert_description:
  "description (catchAlert error em fd fm) =
     (case errorDescription error of
        None \<Rightarrow> fd
      | Some d \<Rightarrow> if truthy d then Verbatim d else fd)"
  by (simp add: catchAlert_def split: option.splits)

lemma catchAlert_level: "level (catchAlert error em fd fm) = ERROR"
  by (simp add: catchAlert_def split: option.splits)

text \<open>
  Five of the six failing calls report through \<^verbatim>\<open>catchAlert\<close> with the
  \<^verbatim>\<open>genericError\<close> texts of their own operation as fallback.
\<close>

lemma failed_call_alerts:
  "alerts (handleInboundConfigDelete p protocol (Rejected error)) =
     [catchAlert error (t (notifications @ ''.deleteProtocolConfig.error.message''))
        (t (notifications @ ''.deleteProtocolConfig.genericError.description''))
        (t (notifications @ ''.deleteProtocolConfig.genericError.message''))]"
  "alerts (handleInboundConfigSwitch p protocol (Rejected error)) =
     [catchAlert error (t (notifications @ ''.deleteProtocolConfig.error.message''))
        (t (notifications @ ''.deleteProtocolConfig.genericError.description''))
        (t (notifications @ ''.deleteProtocolConfig.genericError.message''))]"
  "alerts (handleInboundConfigFormSubmit p vs protocol (Rejected error)) =
     [catchAlert error (t (notifications @ ''.updateInboundProtocolConfig.error.message''))
        (t (notifications @ ''.updateInboundProtocolConfig.genericError.description''))
        (t (notifications @ ''.updateInboundProtocolConfig.genericError.message''))]"
  "alerts (handleSubmit p s values (Rejected error) r) =
     [catchAlert error (t (notifications @ ''.updateApplication.error.message''))
        (t (notifications @ ''.updateApplication.genericError.description''))
        (t (notifications @ ''.updateApplication.genericError.message''))]"
  "alerts (handleApplicationRegenerate p (Rejected error)) =
     [catchAlert error (t (notifications @ ''.regenerateSecret.error.message''))
        (t (notifications @ ''.regenerateSecret.genericError.description''))
        (t (notifications @ ''.regenerateSecret.genericError.message''))]"
  by (simp_all add: handleInboundConfigDelete_def handleInboundConfigDelete_settled_def
      handleInboundConfigSwitch_def handleInboundConfigSwitch_settled_def
      handleInboundConfigFormSubmit_def handleInboundConfigFormSubmit_settled_def
      handleSubmit_def handleSubmit_settled_def
      handleApplicationRegenerate_def handleApplicationRegenerate_settled_def)

lemma failed_fetch_alerts:
  "selected \<noteq> WS_FEDERATION (protocolTypes cfg) \<Longrightarrow> selected \<noteq> WS_TRUST (protocolTypes cfg) \<Longrightarrow>
   selected \<notin> set authProtocolMeta \<Longrightarrow>
   alerts (fetchProtocolMeta cfg authProtocolMeta selected (Rejected error)) =
     [catchAlert error (t (notifications @ ''.fetchProtocolMeta.error.message''))
        (t (notifications @ ''.fetchProtocolMeta.genericError.description''))
        (t (notifications @ ''.fetchProtocolMeta.genericError.message''))]"
  by (simp add: fetchProtocolMeta_def fetchProtocolMeta_settled_def)

lemma failed_revoke_described:
  "errorDescription error = Some d \<Longrightarrow> truthy d \<Longrightarrow>
   map description (alerts (handleApplicationRevoke p (Rejected error))) = [Verbatim d]"
  by (simp add: handleApplicationRevoke_def handleApplicationRevoke_settled_def
      catchAlert_description)

text \<open>
  C3 at the failing input: revoking the client secret fails with an error that carries no
  description.  The one alert dispatched has level \<open>ERROR\<close> and the description and
  message of the success notification, the same description a successful revoke shows; the
  claim asks for the generic fallback description of the operation.
\<close>

theorem handleApplicationRevoke_fallback:
  "alerts (handleApplicationRevoke p (Rejected \<lparr> err_response = None \<rparr>)) =
     [\<lparr> description =
          t ''console:develop.features.applications.notifications.revokeApplication.success.description'',
        level = ERROR,
        message =
          t ''console:develop.features.applications.notifications.revokeApplication.success.message'' \<rparr>]
   \<and> map description (alerts (handleApplicationRevoke p (Rejected \<lparr> err_response = None \<rparr>)))
     = map description (alerts (handleApplicationRevoke p (Resolved ())))"
  by (simp add: handleApplicationRevoke_def handleApplicationRevoke_settled_def catchAlert_def
      errorDescription_def notifications_def)

section \<open>Theorems: refresh callbacks\<close>

text \<open>
  A state the panel reaches for an application without configured protocol: the landing
  page is shown first, and choosing OIDC there selects the protocol and shows its form.
\<close>

lemma getSupportedProtocols_example:
  "getSupportedProtocols example_env example_props None = Inr [''saml'', ''oidc'']"
  by (simp add: getSupportedProtocols_def candidateProtocols_def keepProtocol_def
      usesAllowedProtocolTypes_def example_env_def example_props_def example_types_def
      truthy_def truthy_opt_def)

lemma render_initial_example: "render example_env example_props initial_state = ProtocolLanding"
proof -
  have s: "selectedProtocol initial_state = None" "\<not> requestLoading initial_state"
    by (simp_all add: initial_state_def)
  have p: "\<not> isLoading example_props" "\<not> isInboundProtocolConfigRequestLoading example_props"
    "inboundProtocols example_props = []" "\<not> allowMultipleProtocol example_env"
    by (simp_all add: example_props_def example_env_def)
  show ?thesis
    by (simp add: render_def getSupportedProtocols_example s p truthy_opt_def)
qed

lemma reachable_oidc_selected_state:
  "reachable example_env example_props oidc_selected_state"
proof -
  have "step example_env example_props initial_state (ProtocolLanding_setProtocol ''oidc'')
      = Some (oidc_selected_state,
              [SetSelectedProtocol (Some ''oidc''), PushInboundProtocolList ''oidc''])"
    by (simp add: step_def render_initial_example apply_actions_def)
      (simp add: oidc_selected_state_def initial_state_def)
  with reachable_initial show ?thesis by (rule reachable_step)
qed

lemma example_props_loading:
  "\<not> isLoading example_props" "\<not> isInboundProtocolConfigRequestLoading example_props"
  "appId example_props = ''app-1''"
  by (simp_all add: example_props_def)

lemma render_oidc_selected_state:
  "render example_env example_props oidc_selected_state = Grid"
proof -
  have s: "selectedProtocol oidc_selected_state = Some ''oidc''"
    "\<not> requestLoading oidc_selected_state"
    by (simp_all add: oidc_selected_state_def initial_state_def)
  show ?thesis
    by (simp add: render_def renderGrid_def loadSupportedProtocols_def
        sortedSupportedProtocols_def getSupportedProtocols_example example_props_loading s
        truthy_opt_def truthy_def)
qed

text \<open>
  C4, as the code has it.  The update of the protocol configuration ends, on either
  outcome, with \<^verbatim>\<open>onUpdate\<close> and \<^verbatim>\<open>onProtocolUpdate\<close>, the body of its \<^verbatim>\<open>finally\<close>.
  The handlers of delete, switch and revoke call \<^verbatim>\<open>onUpdate\<close> exactly when their call
  succeeds, the handler of regenerate when it succeeds and the optional callback is given;
  none of the four calls \<^verbatim>\<open>onProtocolUpdate\<close>, and the \<^verbatim>\<open>finally\<close> of switch only resets
  the loading flag and the selected protocol.  \<^verbatim>\<open>handleSubmit\<close> calls each of the two
  callbacks exactly when its details update succeeds, through the protocol update it then
  issues.  Fetching protocol metadata calls neither.
\<close>

theorem refresh_callbacks:
  "(\<exists>pre. handleInboundConfigFormSubmit p vs protocol r0 = pre @ [OnUpdate (appId p), OnProtocolUpdate])
   \<and> ((\<exists>a. OnUpdate a \<in> set (handleInboundConfigDelete p protocol r1)) \<longleftrightarrow> (\<exists>u. r1 = Resolved u))
   \<and> OnProtocolUpdate \<notin> set (handleInboundConfigDelete p protocol r1)
   \<and> ((\<exists>a. OnUpdate a \<in> set (handleInboundConfigSwitch p protocol r2)) \<longleftrightarrow> (\<exists>u. r2 = Resolved u))
   \<and> OnProtocolUpdate \<notin> set (handleInboundConfigSwitch p protocol r2)
   \<and> (\<exists>pre. handleInboundConfigSwitch p protocol r2
          = pre @ [SetRequestLoading False, SetSelectedProtocol None])
   \<and> ((\<exists>a. OnUpdate a \<in> set (handleApplicationRevoke p r3)) \<longleftrightarrow> (\<exists>u. r3 = Resolved u))
   \<and> OnProtocolUpdate \<notin> set (handleApplicationRevoke p r3)
   \<and> ((\<exists>a. OnUpdate a \<in> set (handleApplicationRegenerate p r4))
        \<longleftrightarrow> (\<exists>u. r4 = Resolved u) \<and> has_onApplicationSecretRegenerate p)
   \<and> OnProtocolUpdate \<notin> set (handleApplicationRegenerate p r4)
   \<and> ((\<exists>a. OnUpdate a \<in> set (handleSubmit p s values r5 r6)) \<longleftrightarrow> (\<exists>u. r5 = Resolved u))
   \<and> (OnProtocolUpdate \<in> set (handleSubmit p s values r5 r6) \<longleftrightarrow> (\<exists>u. r5 = Resolved u))
   \<and> (\<forall>a. OnUpdate a \<notin> set (fetchProtocolMeta cfg authProtocolMeta selected r7))
   \<and> OnProtocolUpdate \<notin> set (fetchProtocolMeta cfg authProtocolMeta selected r7)"
proof -
  have a: "\<exists>pre. handleInboundConfigFormSubmit p vs protocol r0
      = pre @ [OnUpdate (appId p), OnProtocolUpdate]"
    by (simp add: handleInboundConfigFormSubmit_def handleInboundConfigFormSubmit_settled_def)
  have b: "(\<exists>a. OnUpdate a \<in> set (handleInboundConfigDelete p protocol r1)) \<longleftrightarrow> (\<exists>u. r1 = Resolved u)"
    by (cases r1) (auto simp: handleInboundConfigDelete_def handleInboundConfigDelete_settled_def)
  have b': "OnProtocolUpdate \<notin> set (handleInboundConfigDelete p protocol r1)"
    by (cases r1) (auto simp: handleInboundConfigDelete_def handleInboundConfigDelete_settled_def)
  have c: "(\<exists>a. OnUpdate a \<in> set (handleInboundConfigSwitch p protocol r2)) \<longleftrightarrow> (\<exists>u. r2 = Resolved u)"
    by (cases r2) (auto simp: handleInboundConfigSwitch_def handleInboundConfigSwitch_settled_def)
  have c': "OnProtocolUpdate \<notin> set (handleInboundConfigSwitch p protocol r2)"
    by (cases r2) (auto simp: handleInboundConfigSwitch_def handleInboundConfigSwitch_settled_def)
  have c'': "\<exists>pre. handleInboundConfigSwitch p protocol r2
      = pre @ [SetRequestLoading False, SetSelectedProtocol None]"
    by (simp add: handleInboundConfigSwitch_def handleInboundConfigSwitch_settled_def)
  have d: "(\<exists>a. OnUpdate a \<in> set (handleApplicationRevoke p r3)) \<longleftrightarrow> (\<exists>u. r3 = Resolved u)"
    by (cases r3) (auto simp: handleApplicationRevoke_def handleApplicationRevoke_settled_def)
  have d': "OnProtocolUpdate \<notin> set (handleApplicationRevoke p r3)"
    by (cases r3) (auto simp: handleApplicationRevoke_def handleApplicationRevoke_settled_def)
  have e: "(\<exists>a. OnUpdate a \<in> set (handleApplicationRegenerate p r4))
        \<longleftrightarrow> (\<exists>u. r4 = Resolved u) \<and> has_onApplicationSecretRegenerate p"
    by (cases r4)
      (auto simp: handleApplicationRegenerate_def handleApplicationRegenerate_settled_def)
  have e': "OnProtocolUpdate \<notin> set (handleApplicationRegenerate p r4)"
    by (cases r4)
      (auto simp: handleApplicationRegenerate_def handleApplicationRegenerate_settled_def)
  have f: "(\<exists>a. OnUpdate a \<in> set (handleSubmit p s values r5 r6)) \<longleftrightarrow> (\<exists>u. r5 = Resolved u)"
    by (cases r5)
      (auto simp: handleSubmit_def handleSubmit_settled_def
        handleInboundConfigFormSubmit_settled_def)
  have f': "OnProtocolUpdate \<in> set (handleSubmit p s values r5 r6) \<longleftrightarrow> (\<exists>u. r5 = Resolved u)"
    by (cases r5)
      (auto simp: handleSubmit_def handleSubmit_settled_def
        handleInboundConfigFormSubmit_settled_def)
  have g: "\<forall>a. OnUpdate a \<notin> set (fetchProtocolMeta cfg authProtocolMeta selected r7)"
    by (cases r7) (auto simp: fetchProtocolMeta_def fetchProtocolMeta_settled_def)
  have g': "OnProtocolUpdate \<notin> set (fetchProtocolMeta cfg authProtocolMeta selected r7)"
    by (cases r7) (auto simp: fetchProtocolMeta_def fetchProtocolMeta_settled_def)
  show ?thesis
    by (intro conjI a b b' c c' c'' d d' e e' f f' g g')
qed

theorem refresh_callbacks_witness:
  "handleInboundConfigFormSubmit example_props [] (Some ''oidc'') (Rejected network_error)
     = [Call_updateAuthProtocolConfig ''app-1'' [] (Some ''oidc''),
        Dispatch_addAlert
          \<lparr> description = t ''console:develop.features.applications.notifications.updateInboundProtocolConfig.genericError.description'',
            level = ERROR,
            message = t ''console:develop.features.applications.notifications.updateInboundProtocolConfig.genericError.message'' \<rparr>,
        OnUpdate ''app-1'', OnProtocolUpdate]
   \<and> (\<exists>pre. handleInboundConfigFormSubmit example_props [] (Some ''oidc'') (Rejected network_error)
          = pre @ [OnUpdate (appId example_props), OnProtocolUpdate])"
proof -
  have e: "handleInboundConfigFormSubmit example_props [] (Some ''oidc'') (Rejected network_error)
     = [Call_updateAuthProtocolConfig ''app-1'' [] (Some ''oidc''),
        Dispatch_addAlert
          \<lparr> description = t ''console:develop.features.applications.notifications.updateInboundProtocolConfig.genericError.description'',
            level = ERROR,
            message = t ''console:develop.features.applications.notifications.updateInboundProtocolConfig.genericError.message'' \<rparr>,
        OnUpdate ''app-1'', OnProtocolUpdate]"
    by (simp add: handleInboundConfigFormSubmit_def handleInboundConfigFormSubmit_settled_def
        catchAlert_def errorDescription_def network_error_def example_props_def
        notifications_def)
  note th = refresh_callbacks
    [of example_props "[]" "Some ''oidc''" "Rejected network_error", THEN conjunct1]
  show ?thesis
    by (intro conjI e th)
qed

text \<open>
  C4 as stated fails.  For an application without configured protocol the panel reaches the
  OIDC form; submitting it issues the details update, and when that call is rejected the
  handler dispatches its error alert and resets the loading flag: no refresh callback is
  called.
\<close>

theorem refresh_callbacks_counterexample:
  "reachable example_env example_props oidc_selected_state
   \<and> event_actions example_env example_props oidc_selected_state (Form_onSubmit example_values)
     = Some [SetRequestLoading True,
             Call_updateApplicationDetails ''app-1'' [(''name'', ''My App'')]]
   \<and> handleSubmit example_props oidc_selected_state example_values
        (Rejected network_error) (Resolved ())
     = [SetRequestLoading True,
        Call_updateApplicationDetails ''app-1'' [(''name'', ''My App'')],
        Dispatch_addAlert
          \<lparr> description = t ''console:develop.features.applications.notifications.updateApplication.genericError.description'',
            level = ERROR,
            message = t ''console:develop.features.applications.notifications.updateApplication.genericError.message'' \<rparr>,
        SetRequestLoading False]
   \<and> OnUpdate (appId example_props)
       \<notin> set (handleSubmit example_props oidc_selected_state example_values
                 (Rejected network_error) (Resolved ()))
   \<and> OnProtocolUpdate
       \<notin> set (handleSubmit example_props oidc_selected_state example_values
                 (Rejected network_error) (Resolved ()))"
proof -
  have a: "event_actions example_env example_props oidc_selected_state (Form_onSubmit example_values)
     = Some [SetRequestLoading True,
             Call_updateApplicationDetails ''app-1'' [(''name'', ''My App'')]]"
    by (simp add: formShown_def render_oidc_selected_state example_props_loading)
      (simp add: oidc_selected_state_def initial_state_def truthy_opt_def truthy_def
        example_values_def)
  have b: "handleSubmit example_props oidc_selected_state example_values
        (Rejected network_error) (Resolved ())
     = [SetRequestLoading True,
        Call_updateApplicationDetails ''app-1'' [(''name'', ''My App'')],
        Dispatch_addAlert
          \<lparr> description = t ''console:develop.features.applications.notifications.updateApplication.genericError.description'',
            level = ERROR,
            message = t ''console:develop.features.applications.notifications.updateApplication.genericError.message'' \<rparr>,
        SetRequestLoading False]"
    by (simp add: handleSubmit_def handleSubmit_settled_def catchAlert_def errorDescription_def
        network_error_def example_props_def example_values_def notifications_def)
  have c: "OnUpdate (appId example_props)
       \<notin> set (handleSubmit example_props oidc_selected_state example_values
                 (Rejected network_error) (Resolved ()))"
    by (simp add: b)
  have d: "OnProtocolUpdate
       \<notin> set (handleSubmit example_props oidc_selected_state example_values
                 (Rejected network_error) (Resolved ()))"
    by (simp add: b)
  show ?thesis
    by (intro conjI reachable_oidc_selected_state a b c d)
qed

section \<open>Theorems: the order of the two updates\<close>

lemmas settled_defs =
  handleInboundConfigDelete_settled_def handleInboundConfigSwitch_settled_def
  handleInboundConfigFormSubmit_settled_def handleSubmit_settled_def
  handleApplicationRegenerate_settled_def handleApplicationRevoke_settled_def
  fetchProtocolMeta_settled_def

text \<open>
  C7.  When the details update is rejected, \<^verbatim>\<open>handleSubmit\<close> never calls
  \<^verbatim>\<open>updateAuthProtocolConfig\<close>.  Wherever that call stands in a run of \<^verbatim>\<open>handleSubmit\<close>,
  the details update was resolved and its call stands earlier in the run.  Among the events
  of the component, only the successful settling of the details update issues the call.
\<close>

theorem handleSubmit_sequencing:
  "(\<forall>e. detailsResult = Rejected e \<longrightarrow>
      (\<forall>a v pr. Call_updateAuthProtocolConfig a v pr
         \<notin> set (handleSubmit p s values detailsResult inboundResult)))
   \<and> (\<forall>i a v pr. i < length (handleSubmit p s values detailsResult inboundResult)
        \<and> handleSubmit p s values detailsResult inboundResult ! i = Call_updateAuthProtocolConfig a v pr
      \<longrightarrow> (\<exists>u. detailsResult = Resolved u)
          \<and> (\<exists>j<i. handleSubmit p s values detailsResult inboundResult ! j
                = Call_updateApplicationDetails (appId p) (values_general values)))
   \<and> (\<forall>ev as a v pr. event_actions cfg p s ev = Some as \<and> Call_updateAuthProtocolConfig a v pr \<in> set as
      \<longrightarrow> (\<exists>sel vals u. ev = Settled_updateApplicationDetails sel vals (Resolved u)))"
proof (intro conjI allI impI)
  fix e a v pr assume "detailsResult = Rejected e"
  then show "Call_updateAuthProtocolConfig a v pr
         \<notin> set (handleSubmit p s values detailsResult inboundResult)"
    by (simp add: handleSubmit_def handleSubmit_settled_def)
next
  fix i a v pr
  let ?tr = "handleSubmit p s values detailsResult inboundResult"
  assume h: "i < length ?tr \<and> ?tr ! i = Call_updateAuthProtocolConfig a v pr"
  have mem: "Call_updateAuthProtocolConfig a v pr \<in> set ?tr"
    using h by (metis nth_mem)
  show "\<exists>u. detailsResult = Resolved u"
  proof (cases detailsResult)
    case (Resolved u)
    then show ?thesis by simp
  next
    case (Rejected e)
    with mem show ?thesis by (simp add: handleSubmit_def handleSubmit_settled_def)
  qed
  have t0: "?tr ! 0 = SetRequestLoading True"
    and t1: "?tr ! 1 = Call_updateApplicationDetails (appId p) (values_general values)"
    by (simp_all add: handleSubmit_def)
  have "i \<noteq> 0" using h t0 by (cases "i = 0") simp_all
  moreover have "i \<noteq> 1" using h t1 by (cases "i = 1") simp_all
  ultimately have "1 < i" by simp
  with t1 show "\<exists>j<i. ?tr ! j = Call_updateApplicationDetails (appId p) (values_general values)"
    by blast
next
  fix ev as a v pr
  assume "event_actions cfg p s ev = Some as \<and> Call_updateAuthProtocolConfig a v pr \<in> set as"
  then show "\<exists>sel vals u. ev = Settled_updateApplicationDetails sel vals (Resolved u)"
    by (cases ev)
      (auto simp: settled_defs loadSupportedProtocols_def
        split: if_splits option.splits sum.splits outcome.splits)
qed

theorem handleSubmit_sequencing_witness:
  "handleSubmit example_props delete_modal_state example_values (Rejected network_error) (Resolved ())
     = [SetRequestLoading True,
        Call_updateApplicationDetails ''app-1'' [(''name'', ''My App'')],
        Dispatch_addAlert
          \<lparr> description = t ''console:develop.features.applications.notifications.updateApplication.genericError.description'',
            level = ERROR,
            message = t ''console:develop.features.applications.notifications.updateApplication.genericError.message'' \<rparr>,
        SetRequestLoading False]
   \<and> take 4 (handleSubmit example_props delete_modal_state example_values (Resolved ()) (Resolved ()))
     = [SetRequestLoading True,
        Call_updateApplicationDetails ''app-1'' [(''name'', ''My App'')],
        Call_updateAuthProtocolConfig ''app-1'' [(''grantTypes'', ''authorization_code'')] (Some ''oidc''),
        SetRequestLoading False]
   \<and> (\<exists>j<2. handleSubmit example_props delete_modal_state example_values (Resolved ()) (Resolved ()) ! j
         = Call_updateApplicationDetails (appId example_props) (values_general example_values))"
proof -
  let ?tr = "handleSubmit example_props delete_modal_state example_values (Resolved ()) (Resolved ())"
  have a: "handleSubmit example_props delete_modal_state example_values (Rejected network_error) (Resolved ())
     = [SetRequestLoading True,
        Call_updateApplicationDetails ''app-1'' [(''name'', ''My App'')],
        Dispatch_addAlert
          \<lparr> description = t ''console:develop.features.applications.notifications.updateApplication.genericError.description'',
            level = ERROR,
            message = t ''console:develop.features.applications.notifications.updateApplication.genericError.message'' \<rparr>,
        SetRequestLoading False]"
    by (simp add: handleSubmit_def handleSubmit_settled_def catchAlert_def errorDescription_def
        network_error_def example_props_def example_values_def notifications_def)
  have b: "take 4 ?tr
     = [SetRequestLoading True,
        Call_updateApplicationDetails ''app-1'' [(''name'', ''My App'')],
        Call_updateAuthProtocolConfig ''app-1'' [(''grantTypes'', ''authorization_code'')] (Some ''oidc''),
        SetRequestLoading False]"
    by (simp add: handleSubmit_def handleSubmit_settled_def example_props_def example_values_def
        delete_modal_state_def initial_state_def)
  have l: "2 < length ?tr"
    by (simp add: handleSubmit_def handleSubmit_settled_def)
  have c: "?tr ! 2
      = Call_updateAuthProtocolConfig ''app-1'' [(''grantTypes'', ''authorization_code'')] (Some ''oidc'')"
    by (simp add: handleSubmit_def handleSubmit_settled_def example_props_def example_values_def
        delete_modal_state_def initial_state_def)
  from handleSubmit_sequencing
    [of "Resolved ()" example_props delete_modal_state example_values "Resolved ()" example_env]
    l c
  have "\<exists>j<2. ?tr ! j = Call_updateApplicationDetails (appId example_props) (values_general example_values)"
    by blast
  with a b show ?thesis by blast
qed

section \<open>Theorems: confirmation before deleteProtocol\<close>















section \<open>Theorems: field adapters\<close>





section \<open>Theorems: the Facebook authenticator form\<close>

lemma findMeta_declared:
  "metadata = None \<or> (\<exists>m ps. metadata = Some m \<and> meta_properties m = Some ps) \<Longrightarrow>
   findMeta metadata k = Inr (declaredMeta metadata k)"
  by (auto simp: findMeta_def declaredMeta_def)

lemma suppliedValue_Cons:
  "suppliedValue (v # rest) k =
     (case suppliedValue rest k of
        Some w \<Rightarrow> Some w
      | None \<Rightarrow> if prop_key v = k then Some (prop_value v) else None)"
  by (auto simp: suppliedValue_def map_add_def split: option.splits)

lemma resolveProperties_lookup:
  assumes "metadata = None \<or> (\<exists>m ps. metadata = Some m \<and> meta_properties m = Some ps)"
  shows "\<exists>fs' vs'. resolveProperties metadata l fs vs = Inr (fs', vs')
     \<and> (\<forall>k. map_of fs' k =
           (case suppliedValue l k of
              Some w \<Rightarrow> Some \<lparr> field_meta = declaredMeta metadata k, field_value = w \<rparr>
            | None \<Rightarrow> map_of fs k))
     \<and> (\<forall>k. map_of vs' k = (case suppliedValue l k of Some w \<Rightarrow> Some w | None \<Rightarrow> map_of vs k))
     \<and> (distinct (map fst fs) \<longrightarrow> distinct (map fst fs'))
     \<and> (distinct (map fst vs) \<longrightarrow> distinct (map fst vs'))"
proof (induction l arbitrary: fs vs)
  case Nil
  then show ?case by (simp add: suppliedValue_def)
next
  case (Cons v rest)
  let ?fs = "AList.update (prop_key v)
      \<lparr> field_meta = declaredMeta metadata (prop_key v), field_value = prop_value v \<rparr> fs"
  let ?vs = "AList.update (prop_key v) (prop_value v) vs"
  from Cons.IH [of ?fs ?vs] obtain fs' vs' where
    r: "resolveProperties metadata rest ?fs ?vs = Inr (fs', vs')"
    and f: "\<forall>k. map_of fs' k =
           (case suppliedValue rest k of
              Some w \<Rightarrow> Some \<lparr> field_meta = declaredMeta metadata k, field_value = w \<rparr>
            | None \<Rightarrow> map_of ?fs k)"
    and i: "\<forall>k. map_of vs' k = (case suppliedValue rest k of Some w \<Rightarrow> Some w | None \<Rightarrow> map_of ?vs k)"
    and d: "distinct (map fst ?fs) \<longrightarrow> distinct (map fst fs')"
      "distinct (map fst ?vs) \<longrightarrow> distinct (map fst vs')"
    by blast
  have step: "resolveProperties metadata (v # rest) fs vs = Inr (fs', vs')"
    using r by (simp add: findMeta_declared [OF assms])
  have f': "\<forall>k. map_of fs' k =
           (case suppliedValue (v # rest) k of
              Some w \<Rightarrow> Some \<lparr> field_meta = declaredMeta metadata k, field_value = w \<rparr>
            | None \<Rightarrow> map_of fs k)"
    using f by (auto simp: suppliedValue_Cons update_conv' split: option.splits)
  have i': "\<forall>k. map_of vs' k =
      (case suppliedValue (v # rest) k of Some w \<Rightarrow> Some w | None \<Rightarrow> map_of vs k)"
    using i by (auto simp: suppliedValue_Cons update_conv' split: option.splits)
  from step f' i' d show ?case
    by (auto simp: distinct_update)
qed

text \<open>
  C2, as the code has it.  For a non-empty property list and metadata that is undefined or
  has a \<^verbatim>\<open>properties\<close> list, the effect sets both states.  The form-field map has an
  entry exactly for the keys of the supplied properties: the entry of a key holds the value
  of the last supplied property with that key and the first metadata declaration of the
  key, if there is one.  A field that only the metadata declares gets no entry.
\<close>

theorem initialiseEffect_fields:
  assumes "originalProperties originalInitialValues = Properties l" and "l \<noteq> []"
    and "metadata = None \<or> (\<exists>m ps. metadata = Some m \<and> meta_properties m = Some ps)"
  shows "\<exists>fs vs. initialiseEffect metadata originalInitialValues st
           = Inr \<lparr> formFields = Some fs, initialValues = Some vs \<rparr>
     \<and> fst ` set fs = prop_key ` set l
     \<and> distinct (map fst fs)
     \<and> (\<forall>k. map_of fs k =
           map_option (\<lambda>w. \<lparr> field_meta = declaredMeta metadata k, field_value = w \<rparr>)
             (suppliedValue l k))
     \<and> (\<forall>k. map_of vs k = suppliedValue l k)"
proof -
  from resolveProperties_lookup [OF assms(3), of l "[]" "[]"] obtain fs vs where
    r: "resolveProperties metadata l [] [] = Inr (fs, vs)"
    and f: "\<forall>k. map_of fs k =
           (case suppliedValue l k of
              Some w \<Rightarrow> Some \<lparr> field_meta = declaredMeta metadata k, field_value = w \<rparr>
            | None \<Rightarrow> map_of [] k)"
    and i: "\<forall>k. map_of vs k = (case suppliedValue l k of Some w \<Rightarrow> Some w | None \<Rightarrow> map_of [] k)"
    and d0: "distinct (map fst ([] :: (string \<times> form_field) list)) \<longrightarrow> distinct (map fst fs)"
    by blast
  from d0 have d: "distinct (map fst fs)" by simp
  have e: "initialiseEffect metadata originalInitialValues st
      = Inr \<lparr> formFields = Some fs, initialValues = Some vs \<rparr>"
    using assms(1,2) r by (simp add: initialiseEffect_def)
  have f': "\<forall>k. map_of fs k =
      map_option (\<lambda>w. \<lparr> field_meta = declaredMeta metadata k, field_value = w \<rparr>) (suppliedValue l k)"
    using f by (auto split: option.splits)
  have i': "\<forall>k. map_of vs k = suppliedValue l k"
    using i by (auto split: option.splits)
  have "dom (map_of fs) = dom (suppliedValue l)"
    using f' by (auto simp: dom_def)
  moreover have "suppliedValue l = map_of (rev (map (\<lambda>v. (prop_key v, prop_value v)) l))"
    by (rule ext) (simp add: suppliedValue_def)
  then have "dom (suppliedValue l) = prop_key ` set l"
    by (simp add: dom_map_of_conv_image_fst image_image)
  ultimately have k: "fst ` set fs = prop_key ` set l"
    by (simp add: dom_map_of_conv_image_fst)
  from e k d f' i' show ?thesis by blast
qed

theorem initialiseEffect_fields_witness:
  "originalProperties facebook_initial_values
     = Properties [\<lparr> prop_key = ''ClientId'', prop_value = ''abc'' \<rparr>]
   \<and> initialiseEffect facebook_metadata facebook_initial_values initial_form_state
     = Inr \<lparr> formFields = Some
               [(''ClientId'',
                 \<lparr> field_meta = Some \<lparr> meta_key = ''ClientId'', isMandatory = True,
                                       readOnly = False, maxLength = 100 \<rparr>,
                   field_value = ''abc'' \<rparr>)],
             initialValues = Some [(''ClientId'', ''abc'')] \<rparr>"
proof -
  have p: "originalProperties facebook_initial_values
     = Properties [\<lparr> prop_key = ''ClientId'', prop_value = ''abc'' \<rparr>]"
    by (simp add: originalProperties_def facebook_initial_values_def)
  have n: "[\<lparr> prop_key = ''ClientId'', prop_value = ''abc'' \<rparr>] \<noteq> []"
    by simp
  have m: "facebook_metadata = None
      \<or> (\<exists>m ps. facebook_metadata = Some m \<and> meta_properties m = Some ps)"
    by (simp add: facebook_metadata_def)
  have e: "initialiseEffect facebook_metadata facebook_initial_values initial_form_state
     = Inr \<lparr> formFields = Some
               [(''ClientId'',
                 \<lparr> field_meta = Some \<lparr> meta_key = ''ClientId'', isMandatory = True,
                                       readOnly = False, maxLength = 100 \<rparr>,
                   field_value = ''abc'' \<rparr>)],
             initialValues = Some [(''ClientId'', ''abc'')] \<rparr>"
    by (simp add: initialiseEffect_def p findMeta_def facebook_metadata_def)
  from initialiseEffect_fields [OF p n m, of initial_form_state] p e show ?thesis
    by simp
qed

text \<open>
  C2 as stated fails: the metadata declares \<^verbatim>\<open>ClientId\<close> and \<^verbatim>\<open>ClientSecret\<close>, both
  mandatory; only \<^verbatim>\<open>ClientId\<close> is supplied, and the resolved map has no entry for
  \<^verbatim>\<open>ClientSecret\<close>, neither an empty one.
\<close>

theorem initialiseEffect_fields_counterexample:
  "declaredMeta facebook_metadata ''ClientSecret''
     = Some \<lparr> meta_key = ''ClientSecret'', isMandatory = True, readOnly = False, maxLength = 100 \<rparr>
   \<and> initialiseEffect facebook_metadata facebook_initial_values initial_form_state
     = Inr \<lparr> formFields = Some
               [(''ClientId'',
                 \<lparr> field_meta = Some \<lparr> meta_key = ''ClientId'', isMandatory = True,
                                       readOnly = False, maxLength = 100 \<rparr>,
                   field_value = ''abc'' \<rparr>)],
             initialValues = Some [(''ClientId'', ''abc'')] \<rparr>
   \<and> fieldOf \<lparr> formFields = Some
               [(''ClientId'',
                 \<lparr> field_meta = Some \<lparr> meta_key = ''ClientId'', isMandatory = True,
                                       readOnly = False, maxLength = 100 \<rparr>,
                   field_value = ''abc'' \<rparr>)],
             initialValues = Some [(''ClientId'', ''abc'')] \<rparr> ''ClientSecret'' = None"
  by (simp add: initialiseEffect_def originalProperties_def findMeta_def declaredMeta_def
      fieldOf_def facebook_metadata_def facebook_initial_values_def)

lemma pushEntries_map:
  "pushEntries entries acc = acc @ map (\<lambda>(k, v). \<lparr> prop_key = k, prop_value = v \<rparr>) entries"
  by (induction entries arbitrary: acc) auto

lemma update_replaces:
  "k \<in> fst ` set al \<Longrightarrow> distinct (map fst al) \<Longrightarrow>
   AList.update k v al = map (\<lambda>(k', v'). if k' = k then (k', v) else (k', v')) al"
proof (induction al)
  case Nil
  then show ?case by simp
next
  case (Cons a al)
  show ?case
  proof (cases "fst a = k")
    case True
    with Cons.prems(2) have "k \<notin> fst ` set al" by auto
    then have "map (\<lambda>(k', v'). if k' = k then (k', v) else (k', v')) al = al"
      by (induction al) auto
    with True show ?thesis by (cases a) simp
  next
    case False
    with Cons show ?thesis by (cases a) auto
  qed
qed

text \<open>
  C9.  The object handed to \<^verbatim>\<open>onSubmit\<close> holds under \<^verbatim>\<open>properties\<close> the list of
  key-value pairs of the submitted values, in their order, and under every other key what
  the original initial values hold there.  When the original object has a \<^verbatim>\<open>properties\<close>
  field, the result is that object with the value of the field replaced, all keys in place.
\<close>

theorem getUpdatedConfigurations_frame:
  "map_of (getUpdatedConfigurations originalInitialValues values) ''properties''
     = Some (Properties (map (\<lambda>(k, v). \<lparr> prop_key = k, prop_value = v \<rparr>) values))
   \<and> (\<forall>field. field \<noteq> ''properties'' \<longrightarrow>
         map_of (getUpdatedConfigurations originalInitialValues values) field
           = (case originalInitialValues of None \<Rightarrow> None | Some obj \<Rightarrow> map_of obj field))
   \<and> (\<forall>obj. originalInitialValues = Some obj \<and> ''properties'' \<in> fst ` set obj
         \<and> distinct (map fst obj) \<longrightarrow>
         getUpdatedConfigurations originalInitialValues values
           = map (\<lambda>(k, v). if k = ''properties''
                    then (k, Properties (map (\<lambda>(k, v). \<lparr> prop_key = k, prop_value = v \<rparr>) values))
                    else (k, v)) obj)
   \<and> (\<forall>obj. originalInitialValues = Some obj \<and> ''properties'' \<notin> fst ` set obj \<longrightarrow>
         getUpdatedConfigurations originalInitialValues values
           = obj @ [(''properties'',
                     Properties (map (\<lambda>(k, v). \<lparr> prop_key = k, prop_value = v \<rparr>) values))])"
proof (intro conjI allI impI)
  show "map_of (getUpdatedConfigurations originalInitialValues values) ''properties''
     = Some (Properties (map (\<lambda>(k, v). \<lparr> prop_key = k, prop_value = v \<rparr>) values))"
    by (simp add: getUpdatedConfigurations_def update_conv' pushEntries_map)
next
  fix field :: string
  assume "field \<noteq> ''properties''"
  then show "map_of (getUpdatedConfigurations originalInitialValues values) field
           = (case originalInitialValues of None \<Rightarrow> None | Some obj \<Rightarrow> map_of obj field)"
    by (simp add: getUpdatedConfigurations_def update_conv' split: option.splits)
next
  fix obj
  assume "originalInitialValues = Some obj \<and> ''properties'' \<in> fst ` set obj
         \<and> distinct (map fst obj)"
  then show "getUpdatedConfigurations originalInitialValues values
           = map (\<lambda>(k, v). if k = ''properties''
                    then (k, Properties (map (\<lambda>(k, v). \<lparr> prop_key = k, prop_value = v \<rparr>) values))
                    else (k, v)) obj"
    by (simp add: getUpdatedConfigurations_def pushEntries_map update_replaces)
next
  fix obj
  assume a: "originalInitialValues = Some obj \<and> ''properties'' \<notin> fst ` set obj"
  have "''properties'' \<notin> fst ` set al \<Longrightarrow>
      AList.update ''properties'' v al = al @ [(''properties'', v)]" for v :: js_value and al
    by (induction al) auto
  with a show "getUpdatedConfigurations originalInitialValues values
           = obj @ [(''properties'',
                     Properties (map (\<lambda>(k, v). \<lparr> prop_key = k, prop_value = v \<rparr>) values))]"
    by (simp add: getUpdatedConfigurations_def pushEntries_map)
qed

theorem getUpdatedConfigurations_frame_witness:
  "getUpdatedConfigurations facebook_initial_values [(''ClientId'', ''xyz''), (''scope'', ''email'')]
     = [(''authenticatorId'', Str ''RmFjZWJvb2s''), (''isEnabled'', Bool True),
        (''properties'', Properties [\<lparr> prop_key = ''ClientId'', prop_value = ''xyz'' \<rparr>,
                                      \<lparr> prop_key = ''scope'', prop_value = ''email'' \<rparr>])]
   \<and> map_of (getUpdatedConfigurations facebook_initial_values
               [(''ClientId'', ''xyz''), (''scope'', ''email'')]) ''isEnabled''
     = Some (Bool True)"
proof -
  have e: "getUpdatedConfigurations facebook_initial_values [(''ClientId'', ''xyz''), (''scope'', ''email'')]
     = [(''authenticatorId'', Str ''RmFjZWJvb2s''), (''isEnabled'', Bool True),
        (''properties'', Properties [\<lparr> prop_key = ''ClientId'', prop_value = ''xyz'' \<rparr>,
                                      \<lparr> prop_key = ''scope'', prop_value = ''email'' \<rparr>])]"
    by (simp add: getUpdatedConfigurations_def facebook_initial_values_def)
  have n: "''isEnabled'' \<noteq> ''properties''" by simp
  have "map_of (getUpdatedConfigurations facebook_initial_values
               [(''ClientId'', ''xyz''), (''scope'', ''email'')]) ''isEnabled''
     = (case facebook_initial_values of None \<Rightarrow> None | Some obj \<Rightarrow> map_of obj ''isEnabled'')"
    using getUpdatedConfigurations_frame
      [of facebook_initial_values "[(''ClientId'', ''xyz''), (''scope'', ''email'')]",
        THEN conjunct2, THEN conjunct1, THEN spec, of "''isEnabled''"] n
    by (rule mp)
  then have "map_of (getUpdatedConfigurations facebook_initial_values
               [(''ClientId'', ''xyz''), (''scope'', ''email'')]) ''isEnabled''
     = Some (Bool True)"
    by (simp add: facebook_initial_values_def)
  with e show ?thesis by simp
qed

lemma initialiseEffect_returns_early:
  "isEmpty (originalProperties originalInitialValues) \<Longrightarrow>
   initialiseEffect metadata originalInitialValues st = Inr st"
  by (simp add: initialiseEffect_def)

lemma initialiseRuns_return_early:
  "\<forall>(metadata, originalInitialValues)\<in>set runs. isEmpty (originalProperties originalInitialValues) \<Longrightarrow>
   initialiseRuns runs st = Inr st"
  by (induction runs) (auto simp: initialiseEffect_returns_early)

text \<open>
  C10.  When the initial values are undefined, have no \<^verbatim>\<open>properties\<close> or an empty list
  there, the effect returns the state it found, whatever the metadata.  From the initial
  state both hooks stay undefined over any number of such runs, and every field is given
  \<^verbatim>\<open>undefined\<close> for its mandatory flag, read-only flag, value and maximal length.
\<close>

theorem initialiseEffect_empty:
  assumes "originalInitialValues = None
           \<or> (\<exists>obj. originalInitialValues = Some obj
                \<and> (map_of obj ''properties'' = None
                   \<or> map_of obj ''properties'' = Some (Properties [])))"
    and "\<forall>(md, oiv)\<in>set runs. isEmpty (originalProperties oiv)"
  shows "initialiseEffect metadata originalInitialValues st = Inr st
     \<and> initialiseEffect metadata originalInitialValues initial_form_state = Inr initial_form_state
     \<and> initialiseRuns runs initial_form_state = Inr initial_form_state
     \<and> formFields initial_form_state = None \<and> initialValues initial_form_state = None
     \<and> fieldRequired initial_form_state k = None \<and> fieldReadOnly initial_form_state k = None
     \<and> fieldValue initial_form_state k = None \<and> fieldMaxLength initial_form_state k = None"
proof -
  have "isEmpty (originalProperties originalInitialValues)"
    using assms(1) by (auto simp: originalProperties_def)
  then have "initialiseEffect metadata originalInitialValues s = Inr s" for s
    by (rule initialiseEffect_returns_early)
  moreover have "initialiseRuns runs initial_form_state = Inr initial_form_state"
    using assms(2) by (rule initialiseRuns_return_early)
  ultimately show ?thesis
    by (simp add: initial_form_state_def fieldRequired_def fieldReadOnly_def fieldValue_def
        fieldMaxLength_def fieldMetaOf_def fieldOf_def)
qed

theorem initialiseEffect_empty_witness:
  "(\<exists>obj. facebook_without_properties = Some obj
      \<and> map_of obj ''properties'' = Some (Properties []))
   \<and> isEmpty (originalProperties facebook_without_properties)
   \<and> isEmpty (originalProperties None)
   \<and> initialiseEffect facebook_metadata facebook_without_properties initial_form_state
       = Inr initial_form_state
   \<and> initialiseRuns [(facebook_metadata, facebook_without_properties), (facebook_metadata, None)]
       initial_form_state = Inr initial_form_state
   \<and> fieldRequired initial_form_state ''ClientId'' = None"
proof -
  have a: "facebook_without_properties = None
           \<or> (\<exists>obj. facebook_without_properties = Some obj
                \<and> (map_of obj ''properties'' = None
                   \<or> map_of obj ''properties'' = Some (Properties [])))"
    by (simp add: facebook_without_properties_def)
  have e: "isEmpty (originalProperties facebook_without_properties)"
    "isEmpty (originalProperties None)"
    by (simp_all add: originalProperties_def facebook_without_properties_def)
  then have b: "\<forall>(md, oiv)\<in>set [(facebook_metadata, facebook_without_properties),
      (facebook_metadata, None)]. isEmpty (originalProperties oiv)"
    by simp
  have c: "\<exists>obj. facebook_without_properties = Some obj
      \<and> map_of obj ''properties'' = Some (Properties [])"
    by (simp add: facebook_without_properties_def)
  note th = initialiseEffect_empty [OF a b, of facebook_metadata initial_form_state "''ClientId''"]
  have x: "initialiseEffect facebook_metadata facebook_without_properties initial_form_state
       = Inr initial_form_state"
    using th by (rule conjunct1)
  have y: "initialiseRuns
       [(facebook_metadata, facebook_without_properties), (facebook_metadata, None)]
       initial_form_state = Inr initial_form_state"
    using th [THEN conjunct2, THEN conjunct2] by (rule conjunct1)
  have z: "fieldRequired initial_form_state ''ClientId'' = None"
    using th [THEN conjunct2, THEN conjunct2, THEN conjunct2, THEN conjunct2, THEN conjunct2]
    by (rule conjunct1)
  show ?thesis
    by (intro conjI c e x y z)
qed

end
